theory Spec2Isabelle
  imports Complex_Main "HOL-Library.Sublist"
begin

section \<open>Configuration\<close>

text \<open>
  The constants of the \<^verbatim>\<open>CONFIG\<close> object that the modelled functions read.
\<close>

definition SESSION_DURATION :: int where
  "SESSION_DURATION = 10 * 60 * 1000"

definition SESSION_ID :: string where
  "SESSION_ID = ''au_si''"

definition EXPIRATION :: string where
  "EXPIRATION = ''au_se''"

definition CLIENT_ID :: string where
  "CLIENT_ID = ''au_ci''"

definition PAGE_VIEW :: string where
  "PAGE_VIEW = ''page-view''"

definition SESSION_START :: string where
  "SESSION_START = ''session-start''"

definition SESSION_END :: string where
  "SESSION_END = ''session-end''"

definition WEB_VITALS :: string where
  "WEB_VITALS = ''web-vitals''"

definition CUSTOM_EVENT :: string where
  "CUSTOM_EVENT = ''custom-event''"

definition INITIAL_CUSTOM_EVENT :: string where
  "INITIAL_CUSTOM_EVENT = ''initial-custom-event''"

section \<open>JavaScript values\<close>

text \<open>
  Epoch milliseconds (\<^verbatim>\<open>Date.now()\<close>) are integers of magnitude at most \<open>8.64 * 10^15\<close>,
  below \<open>2^53\<close>, so adding the session duration to them is exact. The result of
  \<^verbatim>\<open>parseInt\<close> is an integer-valued double, \<^verbatim>\<open>NaN\<close> or an infinity; every comparison
  with \<^verbatim>\<open>NaN\<close> is false. The two zeros of a double are not told apart.
\<close>

datatype jsnum = Num int | NaN | PosInf | NegInf

fun ge_num :: "int \<Rightarrow> jsnum \<Rightarrow> bool" where
  "ge_num a (Num b) = (b \<le> a)"
| "ge_num a NaN = False"
| "ge_num a PosInf = False"
| "ge_num a NegInf = True"

text \<open>
  An integer as a double: exact up to \<open>2^53\<close>; beyond, rounded to 53 significant bits, a
  tie going to the even neighbour, and to an infinity from \<open>2^1024\<close> on.
\<close>

fun bitLength :: "nat \<Rightarrow> nat" where
  "bitLength n = (if n = 0 then 0 else Suc (bitLength (n div 2)))"

declare bitLength.simps [simp del]

definition toNumber :: "int \<Rightarrow> jsnum" where
  "toNumber i =
     (let n = nat \<bar>i\<bar>
      in if n \<le> 2 ^ 53 then Num i
         else (let k = bitLength n - 53;
                   q = n div 2 ^ k;
                   r = n mod 2 ^ k;
                   h = 2 ^ (k - 1);
                   q' = (if r < h \<or> (r = h \<and> even q) then q else q + 1);
                   m = q' * 2 ^ k
               in if 2 ^ 1024 \<le> m then (if i < 0 then NegInf else PosInf)
                  else Num (sgn i * int m)))"

text \<open>
  A \<open>char\<close> of a string stands for the UTF-16 code unit of the same number, so the
  strings of the model are those whose code units lie below 256. \<open>isWhiteSpace\<close> holds of
  the code units that \<^verbatim>\<open>parseInt\<close> skips: the white space and line terminators of
  ECMAScript.
\<close>

definition isWhiteSpace :: "nat \<Rightarrow> bool" where
  "isWhiteSpace u =
     (u = 0x09 \<or> u = 0x0A \<or> u = 0x0B \<or> u = 0x0C \<or> u = 0x0D \<or> u = 0x20 \<or> u = 0xA0 \<or>
      u = 0x1680 \<or> (0x2000 \<le> u \<and> u \<le> 0x200A) \<or> u = 0x2028 \<or> u = 0x2029 \<or>
      u = 0x202F \<or> u = 0x205F \<or> u = 0x3000 \<or> u = 0xFEFF)"

definition digitValue :: "nat \<Rightarrow> nat option" where
  "digitValue u =
     (if 48 \<le> u \<and> u \<le> 57 then Some (u - 48)
      else if 97 \<le> u \<and> u \<le> 122 then Some (u - 87)
      else if 65 \<le> u \<and> u \<le> 90 then Some (u - 55)
      else None)"

definition isRadixDigit :: "nat \<Rightarrow> nat \<Rightarrow> bool" where
  "isRadixDigit R u = (case digitValue u of Some d \<Rightarrow> d < R | None \<Rightarrow> False)"

definition digitOf :: "nat \<Rightarrow> nat" where
  "digitOf u = (case digitValue u of Some d \<Rightarrow> d | None \<Rightarrow> 0)"

text \<open>
  \<^verbatim>\<open>parseInt(string)\<close> with no radix argument, on the code units of the string: leading
  white space is skipped, a sign (code unit 45 or 43) is read, a prefix \<^verbatim>\<open>0x\<close> or \<^verbatim>\<open>0X\<close>
  selects radix 16 (radix 10 otherwise), and the longest prefix of digits is the value,
  as the nearest double (ECMAScript lets an implementation approximate past the 20th
  digit; V8 does not); with no digit the result is \<^verbatim>\<open>NaN\<close>.
\<close>

definition parseInt :: "string \<Rightarrow> jsnum" where
  "parseInt str =
     (let S = dropWhile isWhiteSpace (map of_char str);
          neg = (S \<noteq> [] \<and> hd S = 45);
          S1 = (if S \<noteq> [] \<and> (hd S = 43 \<or> hd S = 45) then tl S else S);
          hex = (prefix [48, 120] S1 \<or> prefix [48, 88] S1);
          R = (if hex then 16 else 10);
          S2 = (if hex then drop 2 S1 else S1);
          Z = takeWhile (isRadixDigit R) S2
      in if Z = [] then NaN
         else toNumber ((if neg then - 1 else 1) * int (foldl (\<lambda>a u. a * R + digitOf u) 0 Z)))"

text \<open>
  \<^verbatim>\<open>localStorage.setItem(key, number)\<close> stores the decimal text of the number.
\<close>

fun digitsOf :: "nat \<Rightarrow> string" where
  "digitsOf n =
     (if n < 10 then [''0123456789'' ! n]
      else digitsOf (n div 10) @ [''0123456789'' ! (n mod 10)])"

declare digitsOf.simps [simp del]

definition numberToString :: "int \<Rightarrow> string" where
  "numberToString i = (if i < 0 then CHR ''-'' # digitsOf (nat (- i)) else digitsOf (nat i))"

definition startsWith :: "string \<Rightarrow> string \<Rightarrow> bool" where
  "startsWith str searchString = prefix searchString str"

definition index :: "'a list \<Rightarrow> nat \<Rightarrow> 'a option" where
  "index xs i = (if i < length xs then Some (xs ! i) else None)"

section \<open>Double arithmetic\<close>

text \<open>
  The doubles of the performance metrics that the code computes with. A finite double is
  held as the real number it denotes; the two zeros are not told apart. \<open>fl\<close> rounds a
  real number to the nearest double, a tie going to the even neighbour: the spacing of
  the doubles around \<open>x\<close> is \<open>2 ^ (e - 52)\<close> for \<open>2 ^ e \<le> |x| < 2 ^ (e + 1)\<close>, and
  \<open>2 ^ (- 1074)\<close> below \<open>2 ^ (- 1022)\<close>; a result of \<open>2 ^ 1024\<close> or more is an infinity.
  Addition and subtraction are the exact operation followed by \<open>fl\<close>.
\<close>

datatype double = Finite real | PlusInfinity | MinusInfinity | NotANumber

definition pow2 :: "int \<Rightarrow> real" where
  "pow2 k = (if 0 \<le> k then 2 ^ nat k else 1 / 2 ^ nat (- k))"

definition roundHalfEven :: "real \<Rightarrow> int" where
  "roundHalfEven q =
     (let f = \<lfloor>q\<rfloor>; r = q - of_int f
      in if r < 1 / 2 then f else if 1 / 2 < r then f + 1 else if even f then f else f + 1)"

definition overflowBound :: real where
  "overflowBound = 2 ^ 1024"

definition fl :: "real \<Rightarrow> double" where
  "fl x =
     (if x = 0 then Finite 0
      else (let u = pow2 (max (\<lfloor>log 2 \<bar>x\<bar>\<rfloor> - 52) (- 1074));
                r = of_int (roundHalfEven (\<bar>x\<bar> / u)) * u
            in if overflowBound \<le> r then (if 0 < x then PlusInfinity else MinusInfinity)
               else Finite (sgn x * r)))"

fun dneg :: "double \<Rightarrow> double" where
  "dneg (Finite a) = Finite (- a)"
| "dneg PlusInfinity = MinusInfinity"
| "dneg MinusInfinity = PlusInfinity"
| "dneg NotANumber = NotANumber"

fun dadd :: "double \<Rightarrow> double \<Rightarrow> double" where
  "dadd (Finite a) (Finite b) = fl (a + b)"
| "dadd NotANumber b = NotANumber"
| "dadd a NotANumber = NotANumber"
| "dadd PlusInfinity MinusInfinity = NotANumber"
| "dadd MinusInfinity PlusInfinity = NotANumber"
| "dadd PlusInfinity b = PlusInfinity"
| "dadd a PlusInfinity = PlusInfinity"
| "dadd MinusInfinity b = MinusInfinity"
| "dadd a MinusInfinity = MinusInfinity"

definition dsub :: "double \<Rightarrow> double \<Rightarrow> double" where
  "dsub a b = dadd a (dneg b)"

text \<open>The comparison \<^verbatim>\<open>a < b\<close>, false whenever an operand is \<^verbatim>\<open>NaN\<close>.\<close>

fun dless :: "double \<Rightarrow> double \<Rightarrow> bool" where
  "dless (Finite a) (Finite b) = (a < b)"
| "dless NotANumber b = False"
| "dless a NotANumber = False"
| "dless MinusInfinity MinusInfinity = False"
| "dless MinusInfinity b = True"
| "dless a MinusInfinity = False"
| "dless PlusInfinity b = False"
| "dless a PlusInfinity = True"

text \<open>\<^verbatim>\<open>Math.max(a, b)\<close>, which is \<^verbatim>\<open>NaN\<close> whenever an operand is.\<close>

fun Math_max :: "double \<Rightarrow> double \<Rightarrow> double" where
  "Math_max NotANumber b = NotANumber"
| "Math_max a NotANumber = NotANumber"
| "Math_max a b = (if dless a b then b else a)"

text \<open>
  The order of the doubles as extended real numbers, used to speak of the maximum of a
  set of sums. \<^verbatim>\<open>NaN\<close> is put below every other double; no sum of the theorems is
  \<^verbatim>\<open>NaN\<close>.
\<close>

fun orderKey :: "double \<Rightarrow> nat \<times> real" where
  "orderKey NotANumber = (0, 0)"
| "orderKey MinusInfinity = (1, 0)"
| "orderKey (Finite r) = (2, r)"
| "orderKey PlusInfinity = (3, 0)"

instantiation double :: linorder
begin

definition less_eq_double :: "double \<Rightarrow> double \<Rightarrow> bool" where
  "less_eq_double a b =
     (fst (orderKey a) < fst (orderKey b) \<or>
      (fst (orderKey a) = fst (orderKey b) \<and> snd (orderKey a) \<le> snd (orderKey b)))"

definition less_double :: "double \<Rightarrow> double \<Rightarrow> bool" where
  "less_double a b = (a \<le> b \<and> \<not> b \<le> a)"

instance
proof
  fix x y z :: double
  show "(x < y) = (x \<le> y \<and> \<not> y \<le> x)" by (simp add: less_double_def)
  show "x \<le> x" by (simp add: less_eq_double_def)
  show "x \<le> y \<Longrightarrow> y \<le> z \<Longrightarrow> x \<le> z" by (auto simp add: less_eq_double_def)
  show "x \<le> y \<Longrightarrow> y \<le> x \<Longrightarrow> x = y"
    by (cases x; cases y) (auto simp add: less_eq_double_def)
  show "x \<le> y \<or> y \<le> x" by (auto simp add: less_eq_double_def)
qed

end

section \<open>Data model\<close>

datatype exn = StorageError | TypeError

datatype visibility = Visible | Hidden

text \<open>
  The session object \<^verbatim>\<open>{sessionId, expirationTime, startTime}\<close>; its \<^verbatim>\<open>startTime\<close> is
  the field \<open>sessionStartTime\<close> here, since performance entries have a \<^verbatim>\<open>startTime\<close> too.
\<close>

record session =
  sessionId :: string
  expirationTime :: jsnum
  sessionStartTime :: int

text \<open>
  A performance entry, with the fields the observers read. Its numbers are finite
  doubles, held as the real numbers they denote. The layout-shift score \<^verbatim>\<open>entry.value\<close>
  is the field \<open>shiftValue\<close>.
\<close>

record perfEntry =
  name :: string
  startTime :: real
  duration :: real
  shiftValue :: real
  hadRecentInput :: bool
  transferSize :: real
  initiatorType :: string
  nextHopProtocol :: string

text \<open>The record pushed to \<^verbatim>\<open>metrics.resources\<close>: name, type, duration, transferSize,
  startTime, protocol.\<close>

datatype resourceRecord = ResourceRecord string string real real real string

text \<open>The navigation timing entry: domContentLoadedEventStart, loadEventStart,
  responseStart, domInteractive.\<close>

datatype navigationEntry = NavigationEntry real real real real

text \<open>
  \<^verbatim>\<open>this.metrics\<close>. The field \<open>inp\<close> is read from an array by index, which yields
  \<^verbatim>\<open>undefined\<close> out of range: \<open>None\<close> stands for \<^verbatim>\<open>undefined\<close>. \<open>resourceCount\<close> is
  absent until \<^verbatim>\<open>collectPerformanceMetrics\<close> adds it. \<open>cls\<close> and \<open>tbt\<close>, which the code
  computes by additions, are doubles with their arithmetic; the other numbers are copied
  from the entries.
\<close>

record metrics =
  lcp :: real
  cls :: double
  inp :: "real option"
  fcp :: real
  ttfb :: real
  tbt :: double
  dcl :: real
  load :: real
  tti :: real
  resources :: "resourceRecord list"
  interactionCount :: nat
  totalJSHeapSize :: real
  usedJSHeapSize :: real
  resourceCount :: "nat option"

text \<open>
  The \<^verbatim>\<open>eventData\<close> argument of \<^verbatim>\<open>trackEvent\<close>: the default \<^verbatim>\<open>{}\<close>, the metrics
  snapshot \<^verbatim>\<open>{...this.metrics}\<close>, the session-end data (sessionDuration, currentUrl), the
  object built by \<^verbatim>\<open>lynq.track\<close> (name, eventId, properties), or an object supplied by
  the host page, which is opaque here.
\<close>

datatype eventData =
    NoData
  | WebVitals metrics
  | SessionEnd int string
  | CustomEvent string string string
  | HostData string

text \<open>
  The payload handed to \<^verbatim>\<open>navigator.sendBeacon\<close>. Its keys carry the prefix \<open>p_\<close>, since
  the tracker has fields of the same names.
\<close>

record payload =
  p_event :: string
  p_timestamp :: int
  p_url :: string
  p_pathname :: string
  p_referrer :: string
  p_dataDomain :: string
  p_clientId :: string
  p_sessionId :: string
  p_pageLoadId :: "string option"
  p_userAgentData :: "string \<times> string"
  p_eventData :: eventData

text \<open>
  The state of one page: the browser environment the script reads and writes, the
  \<^verbatim>\<open>AnalyticsTracker\<close> instance and its \<^verbatim>\<open>PerformanceTracker\<close>.

  Environment. \<open>localStorage\<close> is the persisted store; \<open>storageFaults\<close> scripts the
  outcome of the coming storage calls, one entry per call, \<open>True\<close> for a call that
  throws (none left: the call succeeds). \<open>Date_now\<close> is the clock; one callback reads one
  clock value. \<open>entropy\<close> and \<open>drawn\<close> give the tokens of \<^verbatim>\<open>crypto.randomUUID()\<close> and of
  its \<^verbatim>\<open>Math.random\<close> fallback. \<open>userAgentData\<close> is what \<^verbatim>\<open>BrowserDetector\<close> returns for
  \<^verbatim>\<open>navigator.userAgent\<close>. \<open>beacons\<close> lists the payloads given to
  \<^verbatim>\<open>navigator.sendBeacon\<close>, oldest first.

  Tracker. \<open>suspended\<close> holds the \<^verbatim>\<open>trackEvent\<close> calls waiting at their
  \<^verbatim>\<open>await\<close> for the 100 ms timer. \<open>sessionInterval\<close>, \<open>mutationObserver\<close> and
  \<open>hashchangeListener\<close> say whether the timer, observer and listener are active.

  Performance tracker. \<open>sessionEntries\<close> and \<open>totalBlockingTime\<close> are the closure
  variables of \<^verbatim>\<open>observeCLS\<close> and \<^verbatim>\<open>observeLongTasks\<close>. \<open>tracking\<close> says that
  \<^verbatim>\<open>initializeTracking\<close> ran; \<open>lcpObserver\<close> and \<open>resourceObserver\<close> are the two
  observers that \<^verbatim>\<open>destroy\<close> can disconnect (the other observers are not kept in
  \<^verbatim>\<open>this.observers\<close>, as \<^verbatim>\<open>observe()\<close> returns nothing). \<open>readystateListener\<close> says
  that \<^verbatim>\<open>setupNavigationTracking\<close> added its listener.
\<close>

record state =
  localStorage :: "string \<rightharpoonup> string"
  storageFaults :: "bool list"
  Date_now :: int
  visibilityState :: visibility
  document_referrer :: string
  location_origin :: string
  location_href :: string
  location_pathname :: string
  lynqQueue :: "string list option"
  lynq :: bool
  entropy :: "nat \<Rightarrow> string"
  drawn :: nat
  userAgentData :: "string \<times> string"
  performance_memory :: "(real \<times> real) option"
  resourceEntryCount :: nat
  navigationTiming :: "navigationEntry option"
  readyStateComplete :: bool
  performanceSupported :: bool
  beacons :: "payload list"
  dataDomain :: "string option"
  clientId :: string
  initialPathname :: string
  session :: "session option"
  isDestroyed :: bool
  sessionInterval :: bool
  mutationObserver :: bool
  hashchangeListener :: bool
  pageLoadId :: "string option"
  suspended :: "(string \<times> eventData) list"
  metrics :: metrics
  interactionTimes :: "real list"
  finalMetricsSent :: bool
  sessionEntries :: "perfEntry list"
  totalBlockingTime :: double
  tracking :: bool
  lcpObserver :: bool
  resourceObserver :: bool
  readystateListener :: bool

section \<open>Storage and randomness\<close>

definition nextFault :: "state \<Rightarrow> bool" where
  "nextFault s = (case storageFaults s of [] \<Rightarrow> False | f # fs \<Rightarrow> f)"

definition getItem :: "string \<Rightarrow> state \<Rightarrow> (exn + string option) \<times> state" where
  "getItem k s =
     (if nextFault s then (Inl StorageError, s\<lparr>storageFaults := tl (storageFaults s)\<rparr>)
      else (Inr (localStorage s k), s\<lparr>storageFaults := tl (storageFaults s)\<rparr>))"

definition setItem :: "string \<Rightarrow> string \<Rightarrow> state \<Rightarrow> (exn + unit) \<times> state" where
  "setItem k v s =
     (if nextFault s then (Inl StorageError, s\<lparr>storageFaults := tl (storageFaults s)\<rparr>)
      else (Inr (), s\<lparr>localStorage := (localStorage s)(k \<mapsto> v),
                       storageFaults := tl (storageFaults s)\<rparr>))"

definition randomUUID :: "state \<Rightarrow> string \<times> state" where
  "randomUUID s = (entropy s (drawn s), s\<lparr>drawn := Suc (drawn s)\<rparr>)"

section \<open>PerformanceTracker\<close>

definition observePaint :: "perfEntry list \<Rightarrow> state \<Rightarrow> state" where
  "observePaint entries s =
     foldl (\<lambda>s entry. if name entry = ''first-contentful-paint''
                       then s\<lparr>metrics := (metrics s)\<lparr>fcp := startTime entry\<rparr>\<rparr> else s)
       s entries"

definition observeLCP :: "perfEntry list \<Rightarrow> state \<Rightarrow> state" where
  "observeLCP entries s =
     foldl (\<lambda>s entry. if startTime entry > lcp (metrics s)
                       then s\<lparr>metrics := (metrics s)\<lparr>lcp := startTime entry\<rparr>\<rparr> else s)
       s entries"

text \<open>\<^verbatim>\<open>session.reduce((sum, e) => sum + e.value, 0)\<close>\<close>

definition sessionValue :: "perfEntry list \<Rightarrow> double" where
  "sessionValue sess = foldl (\<lambda>sum e. dadd sum (Finite (shiftValue e))) (Finite 0) sess"

text \<open>
  One round of the \<^verbatim>\<open>forEach\<close> of \<^verbatim>\<open>calculateMaxSessionGap\<close>, on its three local
  variables (maxSessionValue, session, sessionStart); the local array \<^verbatim>\<open>session\<close> is
  \<open>sess\<close> here.
\<close>

definition gapStep ::
  "double \<times> perfEntry list \<times> real \<Rightarrow> perfEntry \<Rightarrow> double \<times> perfEntry list \<times> real" where
  "gapStep vars entry =
     (case vars of (maxSessionValue, sess, sessionStart) \<Rightarrow>
        if sess = [] \<or>
           dless (dsub (Finite (startTime entry)) (Finite sessionStart)) (Finite 1000)
        then (maxSessionValue, sess @ [entry], sessionStart)
        else (Math_max maxSessionValue (sessionValue sess), [entry], startTime entry))"

definition calculateMaxSessionGap :: "perfEntry list \<Rightarrow> double" where
  "calculateMaxSessionGap entries =
     (case foldl gapStep (Finite 0, [], 0) entries of
        (maxSessionValue, sess, sessionStart) \<Rightarrow>
          Math_max maxSessionValue (sessionValue sess))"

definition updateCLS :: "perfEntry \<Rightarrow> state \<Rightarrow> state" where
  "updateCLS entry s =
     (let updatedEntries = sessionEntries s @ [entry]
      in s\<lparr>metrics := (metrics s)\<lparr>cls := calculateMaxSessionGap updatedEntries\<rparr>,
            sessionEntries := updatedEntries\<rparr>)"

definition observeCLS :: "perfEntry list \<Rightarrow> state \<Rightarrow> state" where
  "observeCLS entries s =
     foldl (\<lambda>s entry. if \<not> hadRecentInput entry then updateCLS entry s else s) s entries"

definition observeINP :: "perfEntry list \<Rightarrow> state \<Rightarrow> state" where
  "observeINP entries s =
     (let s1 = s\<lparr>metrics := (metrics s)\<lparr>interactionCount :=
                   interactionCount (metrics s) + length entries\<rparr>\<rparr>;
          s2 = foldl (\<lambda>s entry. s\<lparr>interactionTimes := interactionTimes s @ [duration entry]\<rparr>)
                 s1 entries
      in if length (interactionTimes s2) > 0
         then (let sortedTimes = sort (interactionTimes s2);
                   idx = nat \<lfloor>real (length sortedTimes) * 0.75\<rfloor>
               in s2\<lparr>metrics := (metrics s2)\<lparr>inp := index sortedTimes idx\<rparr>\<rparr>)
         else s2)"

definition observeLongTasks :: "perfEntry list \<Rightarrow> state \<Rightarrow> state" where
  "observeLongTasks entries s =
     foldl (\<lambda>s entry.
              (let blockingTime = dsub (Finite (duration entry)) (Finite 50)
               in if dless (Finite 0) blockingTime
                  then (let newTotal = dadd (totalBlockingTime s) blockingTime
                        in s\<lparr>totalBlockingTime := newTotal,
                              metrics := (metrics s)\<lparr>tbt := newTotal\<rparr>\<rparr>)
                  else s))
       s entries"

definition collectNavigationMetrics :: "state \<Rightarrow> state" where
  "collectNavigationMetrics s =
     (case navigationTiming s of
        None \<Rightarrow> s
      | Some (NavigationEntry domContentLoadedEventStart loadEventStart responseStart domInteractive) \<Rightarrow>
          s\<lparr>metrics := (metrics s)\<lparr>dcl := domContentLoadedEventStart, load := loadEventStart,
                                     ttfb := responseStart, tti := domInteractive\<rparr>\<rparr>)"

definition observeResources :: "perfEntry list \<Rightarrow> state \<Rightarrow> state" where
  "observeResources entries s =
     foldl (\<lambda>s entry.
              if transferSize entry > 0 \<and> duration entry > 100
              then s\<lparr>metrics := (metrics s)\<lparr>resources := resources (metrics s) @
                       [ResourceRecord (name entry) (initiatorType entry) (duration entry)
                          (transferSize entry) (startTime entry) (nextHopProtocol entry)]\<rparr>\<rparr>
              else s)
       s entries"

definition collectPerformanceMetrics :: "state \<Rightarrow> state" where
  "collectPerformanceMetrics s =
     (let s1 = (case performance_memory s of
                  Some (totalSize, usedSize) \<Rightarrow>
                    s\<lparr>metrics := (metrics s)\<lparr>totalJSHeapSize := totalSize,
                                               usedJSHeapSize := usedSize\<rparr>\<rparr>
                | None \<Rightarrow> s)
      in s1\<lparr>metrics := (metrics s1)\<lparr>resourceCount := Some (resourceEntryCount s1)\<rparr>\<rparr>)"

section \<open>AnalyticsTracker\<close>

text \<open>
  The referrer of the payload: \<^verbatim>\<open>document.referrer.startsWith(window.location.origin)\<close>
  chooses between \<^verbatim>\<open>"Direct"\<close> and the referrer, and \<^verbatim>\<open>referrer || "Direct"\<close> replaces
  an empty result.
\<close>

definition classifyReferrer :: "state \<Rightarrow> string" where
  "classifyReferrer s =
     (let referrer = (if startsWith (document_referrer s) (location_origin s)
                      then ''Direct'' else document_referrer s)
      in if referrer \<noteq> [] then referrer else ''Direct'')"

definition composePayload :: "string \<Rightarrow> eventData \<Rightarrow> session \<Rightarrow> state \<Rightarrow> payload" where
  "composePayload eventName data sess s =
     \<lparr> p_event = eventName,
       p_timestamp = Date_now s,
       p_url = location_href s,
       p_pathname = location_pathname s,
       p_referrer = classifyReferrer s,
       p_dataDomain = (case dataDomain s of
                         Some d \<Rightarrow> if d \<noteq> [] then d else ''clair.byharsh.com''
                       | None \<Rightarrow> ''clair.byharsh.com''),
       p_clientId = clientId s,
       p_sessionId = sessionId sess,
       p_pageLoadId = pageLoadId s,
       p_userAgentData = userAgentData s,
       p_eventData = data \<rparr>"

definition sendAnalyticsRequest :: "payload \<Rightarrow> state \<Rightarrow> state" where
  "sendAnalyticsRequest p s = s\<lparr>beacons := beacons s @ [p]\<rparr>"

text \<open>\<^verbatim>\<open>this.session?.sessionId\<close> is truthy.\<close>

definition sessionReady :: "state \<Rightarrow> bool" where
  "sessionReady s = (case session s of None \<Rightarrow> False | Some sess \<Rightarrow> sessionId sess \<noteq> [])"

text \<open>
  The part of \<^verbatim>\<open>trackEvent\<close> after the session check: the payload is composed and sent.
  It runs only behind the check, so the session is there.
\<close>

definition composeAndSend :: "string \<Rightarrow> eventData \<Rightarrow> state \<Rightarrow> state" where
  "composeAndSend eventName data s =
     (case session s of
        None \<Rightarrow> s
      | Some sess \<Rightarrow> sendAnalyticsRequest (composePayload eventName data sess s) s)"

text \<open>
  \<^verbatim>\<open>trackEvent\<close> up to its \<^verbatim>\<open>await\<close>: with no session the call is suspended until its
  100 ms timer fires (\<open>resumeTrackEvent\<close>). The \<^verbatim>\<open>options\<close> argument is not read by
  \<^verbatim>\<open>sendAnalyticsRequest\<close> and is left out.
\<close>

definition trackEvent :: "string \<Rightarrow> eventData \<Rightarrow> state \<Rightarrow> state" where
  "trackEvent eventName data s =
     (if isDestroyed s then s
      else if \<not> sessionReady s then s\<lparr>suspended := suspended s @ [(eventName, data)]\<rparr>
      else composeAndSend eventName data s)"

definition resumeTrackEvent :: "state \<Rightarrow> state" where
  "resumeTrackEvent s =
     (case suspended s of
        [] \<Rightarrow> s
      | (eventName, data) # waiting \<Rightarrow>
          (let s1 = s\<lparr>suspended := waiting\<rparr>
           in if \<not> sessionReady s1 then s1 else composeAndSend eventName data s1))"

definition trackPageView :: "state \<Rightarrow> state" where
  "trackPageView s =
     (if isDestroyed s then s
      else (trackEvent PAGE_VIEW NoData s)\<lparr>initialPathname := location_pathname s\<rparr>)"

definition sendFinalMetrics :: "state \<Rightarrow> state" where
  "sendFinalMetrics s =
     (if \<not> finalMetricsSent s
      then (let s1 = s\<lparr>finalMetricsSent := True\<rparr>;
                s2 = collectPerformanceMetrics s1
            in trackEvent WEB_VITALS (WebVitals (metrics s2)) s2)
      else s)"

text \<open>\<^verbatim>\<open>PerformanceTracker.destroy\<close>\<close>

definition destroyPerformanceTracker :: "state \<Rightarrow> state" where
  "destroyPerformanceTracker s =
     sendFinalMetrics (s\<lparr>lcpObserver := False, resourceObserver := False\<rparr>)"

text \<open>
  \<^verbatim>\<open>getOrCreateClientId\<close>: the catch branch returns a \<^verbatim>\<open>Math.random\<close> token.
\<close>

definition getOrCreateClientId :: "state \<Rightarrow> string \<times> state" where
  "getOrCreateClientId s =
     (case getItem CLIENT_ID s of
        (Inl e, s1) \<Rightarrow> randomUUID s1
      | (Inr stored, s1) \<Rightarrow>
          (if (case stored of None \<Rightarrow> True | Some v \<Rightarrow> v = [])
           then (case randomUUID s1 of (newId, s2) \<Rightarrow>
                   (case setItem CLIENT_ID newId s2 of
                      (Inl e, s3) \<Rightarrow> randomUUID s3
                    | (Inr u, s3) \<Rightarrow> (newId, s3)))
           else (case stored of None \<Rightarrow> ([], s1) | Some v \<Rightarrow> (v, s1))))"

text \<open>
  \<^verbatim>\<open>generateSessionId\<close>: the token of \<^verbatim>\<open>crypto.randomUUID()\<close> or of the fallback.
\<close>

definition generateSessionId :: "state \<Rightarrow> string \<times> state" where
  "generateSessionId s = randomUUID s"

definition isSessionExpired :: "string \<Rightarrow> state \<Rightarrow> bool" where
  "isSessionExpired expiration s = ge_num (Date_now s) (parseInt expiration)"

definition initializeLynq :: "string \<Rightarrow> state \<Rightarrow> state" where
  "initializeLynq eventType s =
     (let queuedEvents = (case lynqQueue s of None \<Rightarrow> [] | Some q \<Rightarrow> q);
          s1 = foldl (\<lambda>s data. trackEvent eventType (HostData data) s) s queuedEvents
      in s1\<lparr>lynqQueue := None, lynq := True\<rparr>)"

text \<open>
  The two branches of \<^verbatim>\<open>initializeSession\<close>. A storage call that throws leaves the
  \<^verbatim>\<open>try\<close> block: the empty \<^verbatim>\<open>catch\<close> keeps the state reached so far.
\<close>

definition startNewSession :: "state \<Rightarrow> state" where
  "startNewSession s =
     (case generateSessionId s of (newSessionId, s1) \<Rightarrow>
        (let newExpirationTime = Date_now s1 + SESSION_DURATION
         in case setItem SESSION_ID newSessionId s1 of
              (Inl e, s2) \<Rightarrow> s2
            | (Inr u, s2) \<Rightarrow>
                (case setItem EXPIRATION (numberToString newExpirationTime) s2 of
                   (Inl e, s3) \<Rightarrow> s3
                 | (Inr u, s3) \<Rightarrow>
                     (let s4 = s3\<lparr>session := Some \<lparr> sessionId = newSessionId,
                                                     expirationTime = Num newExpirationTime,
                                                     sessionStartTime = Date_now s3 \<rparr>\<rparr>;
                          s5 = trackEvent SESSION_START NoData s4;
                          s6 = initializeLynq INITIAL_CUSTOM_EVENT s5
                      in s6\<lparr>sessionInterval := True\<rparr>))))"

definition resumeSession :: "string \<Rightarrow> string \<Rightarrow> state \<Rightarrow> state" where
  "resumeSession storedId storedExpiration s =
     (let s1 = s\<lparr>session := Some \<lparr> sessionId = storedId,
                                    expirationTime = parseInt storedExpiration,
                                    sessionStartTime = Date_now s \<rparr>\<rparr>;
          s2 = trackPageView s1;
          s3 = initializeLynq CUSTOM_EVENT s2
      in s3\<lparr>sessionInterval := True\<rparr>)"

definition initializeSession :: "state \<Rightarrow> state" where
  "initializeSession s =
     (case getItem SESSION_ID s of
        (Inl e, s1) \<Rightarrow> s1
      | (Inr storedId, s1) \<Rightarrow>
          (case getItem EXPIRATION s1 of
             (Inl e, s2) \<Rightarrow> s2
           | (Inr storedExpiration, s2) \<Rightarrow>
               (case (storedId, storedExpiration) of
                  (Some sid, Some expiration) \<Rightarrow>
                    if sid = [] \<or> expiration = [] \<or> isSessionExpired expiration s2
                    then startNewSession s2
                    else resumeSession sid expiration s2
                | _ \<Rightarrow> startNewSession s2)))"

definition refreshSession :: "state \<Rightarrow> state" where
  "refreshSession s =
     (if visibilityState s = Visible \<and> \<not> isDestroyed s
      then (let newExpirationTime = Date_now s + SESSION_DURATION
            in case setItem EXPIRATION (numberToString newExpirationTime) s of
                 (Inl e, s1) \<Rightarrow> s1
               | (Inr u, s1) \<Rightarrow>
                   (case session s1 of
                      None \<Rightarrow> s1
                    | Some sess \<Rightarrow>
                        s1\<lparr>session := Some (sess\<lparr>expirationTime := Num newExpirationTime\<rparr>)\<rparr>))
      else s)"

definition zeroMetrics :: metrics where
  "zeroMetrics =
     \<lparr> lcp = 0, cls = Finite 0, inp = Some 0, fcp = 0, ttfb = 0, tbt = Finite 0, dcl = 0,
       load = 0, tti = 0,
       resources = [], interactionCount = 0, totalJSHeapSize = 0, usedJSHeapSize = 0,
       resourceCount = None \<rparr>"

definition initializeTracking :: "state \<Rightarrow> state" where
  "initializeTracking s =
     (let s1 = s\<lparr>lcpObserver := True\<rparr>;
          s2 = (if readyStateComplete s1 then collectNavigationMetrics s1
                else s1\<lparr>readystateListener := True\<rparr>)
      in s2\<lparr>resourceObserver := True, tracking := True\<rparr>)"

definition newPerformanceTracker :: "state \<Rightarrow> state" where
  "newPerformanceTracker s =
     (let s1 = s\<lparr>metrics := zeroMetrics, interactionTimes := [], finalMetricsSent := False,
                 sessionEntries := [], totalBlockingTime := Finite 0, tracking := False,
                 lcpObserver := False, resourceObserver := False, readystateListener := False\<rparr>
      in if performanceSupported s1 then initializeTracking s1 else s1)"

definition setupEventListeners :: "state \<Rightarrow> state" where
  "setupEventListeners s =
     (case randomUUID s of (newId, s1) \<Rightarrow>
        s1\<lparr>pageLoadId := Some newId, hashchangeListener := True, mutationObserver := True\<rparr>)"

text \<open>The constructor of \<^verbatim>\<open>AnalyticsTracker\<close>, run once when the script loads.\<close>

definition construct :: "state \<Rightarrow> state" where
  "construct env =
     (case getOrCreateClientId env of (newClientId, s1) \<Rightarrow>
        (let s2 = s1\<lparr>clientId := newClientId, initialPathname := location_pathname s1,
                    session := None, mutationObserver := False, isDestroyed := False,
                    sessionInterval := False, hashchangeListener := False, pageLoadId := None,
                    suspended := []\<rparr>;
             s3 = initializeSession s2;
             s4 = newPerformanceTracker s3
         in setupEventListeners s4))"

text \<open>\<^verbatim>\<open>AnalyticsTracker.destroy\<close>\<close>

definition destroy :: "state \<Rightarrow> state" where
  "destroy s =
     (let s1 = s\<lparr>isDestroyed := True\<rparr>;
          s2 = (if sessionInterval s1 then s1\<lparr>sessionInterval := False\<rparr> else s1);
          s3 = s2\<lparr>hashchangeListener := False\<rparr>;
          s4 = (if mutationObserver s3 then s3\<lparr>mutationObserver := False\<rparr> else s3)
      in destroyPerformanceTracker s4)"

text \<open>
  The page-close handler of \<^verbatim>\<open>setupEventListeners\<close>: reading
  \<^verbatim>\<open>this.session.startTime\<close> with no session throws in the handler.
\<close>

definition sessionEndHandler :: "state \<Rightarrow> state" where
  "sessionEndHandler s =
     (case session s of
        None \<Rightarrow> s
      | Some sess \<Rightarrow>
          trackEvent SESSION_END (SessionEnd (Date_now s - sessionStartTime sess) (location_href s)) s)"

section \<open>The page as a state machine\<close>

text \<open>
  What can happen to a page after the script has loaded: batches of performance entries
  delivered to the observers, document and window events, timers, calls of the host page
  (\<^verbatim>\<open>window.lynq.track\<close>, \<^verbatim>\<open>window.your_tracking\<close>), \<^verbatim>\<open>destroy()\<close>, and changes of the
  environment (the clock, the location, the storage faults to come).

  The \<^verbatim>\<open>hashchange\<close> listener is the method \<^verbatim>\<open>this.trackPageView\<close> passed unbound: the
  browser calls it with the window as \<^verbatim>\<open>this\<close>, where \<^verbatim>\<open>this.trackEvent\<close> is not a
  function, so the handler throws and changes nothing.
\<close>

datatype signal =
    PaintEntries "perfEntry list"
  | LcpEntries "perfEntry list"
  | LayoutShiftEntries "perfEntry list"
  | EventEntries "perfEntry list"
  | LongTaskEntries "perfEntry list"
  | ResourceEntries "perfEntry list"
  | ReadyStateChange bool
  | VisibilityChange visibility
  | BeforeUnload
  | HashChange
  | DomMutation
  | Navigate string string
  | RefreshTimer
  | GraceTimer
  | ClockAdvance nat
  | StorageFaults "bool list"
  | LynqTrack string string
  | YourTracking string eventData
  | Destroy

fun step :: "signal \<Rightarrow> state \<Rightarrow> state" where
  "step (PaintEntries es) s = (if tracking s then observePaint es s else s)"
| "step (LcpEntries es) s = (if tracking s \<and> lcpObserver s then observeLCP es s else s)"
| "step (LayoutShiftEntries es) s = (if tracking s then observeCLS es s else s)"
| "step (EventEntries es) s = (if tracking s then observeINP es s else s)"
| "step (LongTaskEntries es) s = (if tracking s then observeLongTasks es s else s)"
| "step (ResourceEntries es) s =
     (if tracking s \<and> resourceObserver s then observeResources es s else s)"
| "step (ReadyStateChange c) s =
     (let s1 = s\<lparr>readyStateComplete := c\<rparr>
      in if readystateListener s1 \<and> c then collectNavigationMetrics s1 else s1)"
| "step (VisibilityChange v) s =
     (let s1 = s\<lparr>visibilityState := v\<rparr>
      in if tracking s1 \<and> v = Hidden then sendFinalMetrics s1 else s1)"
| "step BeforeUnload s =
     sessionEndHandler (if tracking s then sendFinalMetrics s else s)"
| "step HashChange s = s"
| "step DomMutation s =
     (if mutationObserver s \<and> \<not> isDestroyed s \<and> location_pathname s \<noteq> initialPathname s
      then trackPageView s else s)"
| "step (Navigate path href) s = s\<lparr>location_pathname := path, location_href := href\<rparr>"
| "step RefreshTimer s = (if sessionInterval s then refreshSession s else s)"
| "step GraceTimer s = resumeTrackEvent s"
| "step (ClockAdvance n) s = s\<lparr>Date_now := Date_now s + int n\<rparr>"
| "step (StorageFaults fs) s = s\<lparr>storageFaults := fs\<rparr>"
| "step (LynqTrack eventName properties) s =
     (if lynq s
      then (case randomUUID s of (eventId, s1) \<Rightarrow>
              trackEvent CUSTOM_EVENT (CustomEvent eventName eventId properties) s1)
      else s)"
| "step (YourTracking eventName data) s = trackEvent eventName data s"
| "step Destroy s = destroy s"

definition run :: "signal list \<Rightarrow> state \<Rightarrow> state" where
  "run sigs s = foldl (\<lambda>s sig. step sig s) s sigs"

inductive reachable :: "state \<Rightarrow> bool" where
  loaded: "reachable (construct env)"
| stepped: "reachable s \<Longrightarrow> reachable (step sig s)"

section \<open>Notions of the specification\<close>

text \<open>
  The groupings of layout-shift entries as the specification words them: an entry joins
  the current grouping when its \<^verbatim>\<open>startTime\<close> and the start of that grouping satisfy
  \<open>joins\<close>, and begins a new grouping, whose start is its own \<^verbatim>\<open>startTime\<close>, otherwise.
  The first entry begins the first grouping.
\<close>

fun groupingsFrom ::
  "(real \<Rightarrow> real \<Rightarrow> bool) \<Rightarrow> real \<Rightarrow> perfEntry list \<Rightarrow> perfEntry list \<Rightarrow> perfEntry list list" where
  "groupingsFrom joins start current [] = [current]"
| "groupingsFrom joins start current (e # es) =
     (if joins (startTime e) start then groupingsFrom joins start (current @ [e]) es
      else current # groupingsFrom joins (startTime e) [e] es)"

definition groupings :: "(real \<Rightarrow> real \<Rightarrow> bool) \<Rightarrow> perfEntry list \<Rightarrow> perfEntry list list" where
  "groupings joins es =
     (case es of [] \<Rightarrow> [] | e # rest \<Rightarrow> groupingsFrom joins (startTime e) [e] rest)"

text \<open>
  The claim as it is stated: the gap does not exceed 1000 ms, and the scores of a
  grouping are summed as numbers.
\<close>

definition gapWithin :: "real \<Rightarrow> real \<Rightarrow> bool" where
  "gapWithin t start = (t - start \<le> 1000)"

definition exactSum :: "perfEntry list \<Rightarrow> real" where
  "exactSum g = sum_list (map shiftValue g)"

definition claimedCLS :: "perfEntry list \<Rightarrow> real" where
  "claimedCLS es = Max (set (map exactSum (groupings gapWithin es)))"

text \<open>
  The claim as amended: the gap, subtracted as doubles, is below 1000 ms, and the scores
  of a grouping are added as doubles, in arrival order, starting from 0.
\<close>

definition gapBelow :: "real \<Rightarrow> real \<Rightarrow> bool" where
  "gapBelow t start = dless (dsub (Finite t) (Finite start)) (Finite 1000)"

definition groupingSum :: "perfEntry list \<Rightarrow> double" where
  "groupingSum g = foldl (\<lambda>sum e. dadd sum (Finite (shiftValue e))) (Finite 0) g"

definition maxGroupingSum :: "(real \<Rightarrow> real \<Rightarrow> bool) \<Rightarrow> perfEntry list \<Rightarrow> double" where
  "maxGroupingSum joins es = Max (set (map groupingSum (groupings joins es)))"

text \<open>
  The origin of a serialized URL: scheme, \<^verbatim>\<open>://\<close> and authority (host and port), which
  ends at the first \<^verbatim>\<open>/\<close>, \<^verbatim>\<open>?\<close> or \<^verbatim>\<open>#\<close>. A URL of another shape has the opaque origin
  \<^verbatim>\<open>null\<close>.
\<close>

definition originOf :: "string \<Rightarrow> string" where
  "originOf u =
     (let scheme = takeWhile (\<lambda>c. c \<noteq> CHR '':'') u;
          rest = drop (length scheme) u
      in if prefix ''://'' rest
         then scheme @ ''://'' @
              takeWhile (\<lambda>c. c \<noteq> CHR ''/'' \<and> c \<noteq> CHR ''?'' \<and> c \<noteq> CHR ''#'') (drop 3 rest)
         else ''null'')"

definition sameOrigin :: "string \<Rightarrow> string \<Rightarrow> bool" where
  "sameOrigin u origin = (originOf u = origin)"

text \<open>
  The host page never calls \<^verbatim>\<open>window.your_tracking\<close> with the event name \<open>n\<close>.
\<close>

fun hostUses :: "string \<Rightarrow> signal \<Rightarrow> bool" where
  "hostUses n (YourTracking eventName data) = (eventName = n)"
| "hostUses n sig = False"

definition countEvent :: "string \<Rightarrow> payload list \<Rightarrow> nat" where
  "countEvent n ps = length (filter (\<lambda>p. p_event p = n) ps)"

text \<open>A persisted entry is absent when \<^verbatim>\<open>getItem\<close> gives a falsy value: \<^verbatim>\<open>null\<close> or the
  empty string.\<close>

definition absent :: "string option \<Rightarrow> bool" where
  "absent v = (case v of None \<Rightarrow> True | Some x \<Rightarrow> x = [])"

text \<open>The names of the events sent between the states \<open>s\<close> and \<open>s'\<close>, in order.\<close>

definition emittedEvents :: "state \<Rightarrow> state \<Rightarrow> string list" where
  "emittedEvents s s' = map p_event (drop (length (beacons s)) (beacons s'))"

section \<open>Notions of the proofs\<close>

text \<open>The \<open>i\<close>-th coming storage call throws.\<close>

definition faultAt :: "nat \<Rightarrow> state \<Rightarrow> bool" where
  "faultAt i s = (i < length (storageFaults s) \<and> storageFaults s ! i)"

text \<open>
  The test of \<^verbatim>\<open>initializeSession\<close> on the persisted entries: the session id or the
  expiration is missing or empty, or the clock has reached the parsed expiration.
\<close>

definition persistedSessionStale :: "state \<Rightarrow> bool" where
  "persistedSessionStale s =
     (case (localStorage s SESSION_ID, localStorage s EXPIRATION) of
        (Some sid, Some e) \<Rightarrow> sid = [] \<or> e = [] \<or> ge_num (Date_now s) (parseInt e)
      | _ \<Rightarrow> True)"

text \<open>The entries of \<^verbatim>\<open>window.lynqQueue\<close>, none when the host page made no queue.\<close>

definition queuedEvents :: "state \<Rightarrow> string list" where
  "queuedEvents s = (case lynqQueue s of None \<Rightarrow> [] | Some q \<Rightarrow> q)"

text \<open>
  The part of the state that decides what is sent: \<open>untouched s s'\<close> says that a
  callback left it as it was.
\<close>

definition untouched :: "state \<Rightarrow> state \<Rightarrow> bool" where
  "untouched s s' =
     (beacons s' = beacons s \<and> suspended s' = suspended s \<and> session s' = session s \<and>
      isDestroyed s' = isDestroyed s \<and> finalMetricsSent s' = finalMetricsSent s \<and>
      localStorage s' = localStorage s \<and> storageFaults s' = storageFaults s)"

text \<open>A call of \<^verbatim>\<open>trackEvent\<close> waits at its \<^verbatim>\<open>await\<close> only while no session is ready.\<close>

definition waitingWithoutSession :: "state \<Rightarrow> bool" where
  "waitingWithoutSession s = (suspended s = [] \<or> \<not> sessionReady s)"

text \<open>The events named \<open>n\<close> that were sent or wait to be sent.\<close>

definition eventLoad :: "string \<Rightarrow> state \<Rightarrow> nat" where
  "eventLoad n s = countEvent n (beacons s) + length (filter (\<lambda>w. fst w = n) (suspended s))"

text \<open>
  The final-metrics events sent or waiting, plus one while the one-shot flag is not yet
  set: no callback makes this number grow.
\<close>

definition vitalsBudget :: "state \<Rightarrow> nat" where
  "vitalsBudget s = eventLoad WEB_VITALS s + (if finalMetricsSent s then 0 else 1)"

section \<open>Example inputs\<close>

text \<open>The doubles written \<^verbatim>\<open>0.1\<close>, \<^verbatim>\<open>0.2\<close> and \<^verbatim>\<open>0.05\<close>.\<close>

definition d01 :: real where
  "d01 = 3602879701896397 / 2 ^ 55"

definition d02 :: real where
  "d02 = 3602879701896397 / 2 ^ 54"

definition d005 :: real where
  "d005 = 3602879701896397 / 2 ^ 56"

definition shift :: "real \<Rightarrow> real \<Rightarrow> perfEntry" where
  "shift t v =
     \<lparr> name = [], startTime = t, duration = 0, shiftValue = v, hadRecentInput = False,
       transferSize = 0, initiatorType = [], nextHopProtocol = [] \<rparr>"

definition interaction :: "real \<Rightarrow> perfEntry" where
  "interaction d =
     \<lparr> name = ''click'', startTime = 0, duration = d, shiftValue = 0, hadRecentInput = False,
       transferSize = 0, initiatorType = [], nextHopProtocol = [] \<rparr>"

text \<open>
  A page before the script loads: empty storage with no fault to come, the clock at
  1000, the page visible and reached with no referrer.
\<close>

definition examplePage :: state where
  "examplePage =
     \<lparr> localStorage = Map.empty, storageFaults = [], Date_now = 1000,
       visibilityState = Visible, document_referrer = [],
       location_origin = ''https://example.com'',
       location_href = ''https://example.com/'', location_pathname = ''/'',
       lynqQueue = None, lynq = False, entropy = (\<lambda>n. ''token'' @ digitsOf n), drawn = 0,
       userAgentData = (''Chrome'', ''Linux''), performance_memory = None,
       resourceEntryCount = 0, navigationTiming = None, readyStateComplete = False,
       performanceSupported = True, beacons = [], dataDomain = None, clientId = [],
       initialPathname = [], session = None, isDestroyed = False, sessionInterval = False,
       mutationObserver = False, hashchangeListener = False, pageLoadId = None,
       suspended = [], metrics = zeroMetrics, interactionTimes = [],
       finalMetricsSent = False, sessionEntries = [], totalBlockingTime = Finite 0,
       tracking = False, lcpObserver = False, resourceObserver = False,
       readystateListener = False \<rparr>"

text \<open>The same page with a session persisted earlier, its expiration as stored.\<close>

definition returningPage :: "string \<Rightarrow> state" where
  "returningPage storedExpiration =
     examplePage\<lparr>localStorage := [SESSION_ID \<mapsto> ''abc'', EXPIRATION \<mapsto> storedExpiration,
                                  CLIENT_ID \<mapsto> ''client'']\<rparr>"

section \<open>Double arithmetic\<close>

lemma pow2_pos [simp]: "0 < pow2 k"
  by (simp add: pow2_def)

lemma pow2_powr: "pow2 k = 2 powr (real_of_int k)"
  by (simp add: pow2_def powr_real_of_int inverse_eq_divide)

lemma pow2_add: "pow2 (a + b) = pow2 a * pow2 b"
  by (simp only: pow2_powr of_int_add powr_add)

lemma roundHalfEven_nonneg: "0 \<le> q \<Longrightarrow> 0 \<le> roundHalfEven q"
  by (simp add: roundHalfEven_def Let_def)

lemma roundHalfEven_of_int [simp]: "roundHalfEven (of_int k) = k"
  by (simp add: roundHalfEven_def Let_def)

lemma Finite_le [simp]: "(Finite a \<le> Finite b) = (a \<le> b)"
  by (auto simp add: less_eq_double_def)

lemma Finite_le_PlusInfinity [simp]: "Finite a \<le> PlusInfinity"
  by (simp add: less_eq_double_def)

lemma zero_le_double: "(Finite 0 \<le> d) = (d = PlusInfinity \<or> (\<exists>r. d = Finite r \<and> 0 \<le> r))"
  by (cases d) (auto simp add: less_eq_double_def)

lemma fl_nonneg: "0 \<le> x \<Longrightarrow> Finite 0 \<le> fl x"
proof -
  assume x: "0 \<le> x"
  have r: "0 \<le> of_int (roundHalfEven (\<bar>x\<bar> / u)) * u" if "0 < u" for u :: real
  proof -
    from that have "0 \<le> \<bar>x\<bar> / u" by simp
    then have "0 \<le> roundHalfEven (\<bar>x\<bar> / u)" by (rule roundHalfEven_nonneg)
    with that show ?thesis by simp
  qed
  from x r [OF pow2_pos] show ?thesis
    by (auto simp add: fl_def Let_def sgn_if)
qed

lemma floor_log2:
  assumes "pow2 e \<le> x" and "x < pow2 (e + 1)"
  shows "\<lfloor>log 2 x\<rfloor> = e"
proof -
  have "0 < pow2 e" by simp
  with assms(1) have pos: "0 < x" by linarith
  have "2 powr (real_of_int e) \<le> x \<and> x < 2 powr (real_of_int e + 1)"
    using assms by (simp add: pow2_powr)
  with pos show ?thesis by (simp add: floor_log_eq_powr_iff)
qed

lemma fl_normal:
  assumes "pow2 e \<le> \<bar>x\<bar>" and "\<bar>x\<bar> < pow2 (e + 1)" and "- 1022 \<le> e"
    and "of_int (roundHalfEven (\<bar>x\<bar> / pow2 (e - 52))) * pow2 (e - 52) < overflowBound"
  shows "fl x = Finite (sgn x * (of_int (roundHalfEven (\<bar>x\<bar> / pow2 (e - 52))) * pow2 (e - 52)))"
proof -
  have "0 < pow2 e" by simp
  with assms(1) have "0 < \<bar>x\<bar>" by linarith
  then have nz: "x \<noteq> 0" by simp
  from floor_log2 [OF assms(1,2)] have e: "\<lfloor>log 2 \<bar>x\<bar>\<rfloor> = e" .
  from assms(3) have m: "max (e - 52) (- 1074) = e - 52" by simp
  from nz assms(4) show ?thesis by (simp add: fl_def Let_def e m)
qed


lemma small_below_overflow: "r < 2 ^ 64 \<Longrightarrow> r < overflowBound"
proof -
  assume "r < 2 ^ 64"
  moreover have "(2::real) ^ 64 \<le> 2 ^ 1024" by (rule power_increasing) simp_all
  ultimately show ?thesis by (simp only: overflowBound_def)
qed

text \<open>A number with at most 53 significant bits is kept as it is.\<close>

lemma fl_exact:
  assumes "x = of_int m * pow2 k" and "\<bar>m\<bar> < 2 ^ 53" and "- 1074 \<le> k" and "\<bar>x\<bar> < overflowBound"
  shows "fl x = Finite x"
proof (cases "x = 0")
  case True
  then show ?thesis by (simp add: fl_def)
next
  case False
  define c where "c = max (\<lfloor>log 2 \<bar>x\<bar>\<rfloor> - 52) (- 1074)"
  have "\<bar>pow2 k\<bar> = pow2 k" by (rule abs_of_pos) (rule pow2_pos)
  then have ax: "\<bar>x\<bar> = of_int \<bar>m\<bar> * pow2 k" by (simp add: assms(1) abs_mult)
  from False have xpos: "0 < \<bar>x\<bar>" by simp
  have "\<bar>x\<bar> < 2 ^ 53 * pow2 k"
  proof -
    from assms(2) have "real_of_int \<bar>m\<bar> < 2 ^ 53"
      by (metis of_int_less_numeral_power_cancel_iff)
    then show ?thesis by (simp add: ax)
  qed
  also have "\<dots> = 2 powr (real_of_int (53 + k))"
    by (simp add: pow2_powr powr_add powr_numeral [symmetric] del: powr_numeral)
  finally have "log 2 \<bar>x\<bar> < real_of_int (53 + k)"
    using xpos by (simp add: log_less_iff)
  then have "\<lfloor>log 2 \<bar>x\<bar>\<rfloor> < 53 + k" by linarith
  with assms(3) have ck: "c \<le> k" by (simp add: c_def)
  have "pow2 k = of_int (2 ^ nat (k - c)) * pow2 c"
  proof -
    have "pow2 k = pow2 ((k - c) + c)" by simp
    also have "\<dots> = pow2 (k - c) * pow2 c" by (rule pow2_add)
    also from ck have "pow2 (k - c) = 2 ^ nat (k - c)" by (simp add: pow2_def)
    finally show ?thesis by simp
  qed
  then have xc: "\<bar>x\<bar> = of_int (\<bar>m\<bar> * 2 ^ nat (k - c)) * pow2 c"
    by (simp add: ax)
  have nz: "pow2 c \<noteq> 0" by (rule less_imp_neq [symmetric]) (rule pow2_pos)
  from nz have "of_int (\<bar>m\<bar> * 2 ^ nat (k - c)) * pow2 c / pow2 c
                  = real_of_int (\<bar>m\<bar> * 2 ^ nat (k - c))"
    by (rule nonzero_mult_div_cancel_right)
  with xc have "\<bar>x\<bar> / pow2 c = of_int (\<bar>m\<bar> * 2 ^ nat (k - c))"
    by (simp only:)
  then have "of_int (roundHalfEven (\<bar>x\<bar> / pow2 c)) * pow2 c = \<bar>x\<bar>"
    using xc by (simp only: roundHalfEven_of_int)
  with False assms(4) show ?thesis
    by (simp add: fl_def Let_def c_def [symmetric] sgn_if)
qed


lemma overflowBound_gt_1: "1 < overflowBound"
  unfolding overflowBound_def by (rule one_less_power) simp_all

lemma overflow_scaled: "a \<le> b \<Longrightarrow> 0 < b \<Longrightarrow> a < overflowBound * b"
proof -
  assume ab: "a \<le> b" and b: "0 < b"
  from overflowBound_gt_1 b have "1 * b < overflowBound * b"
    by (rule mult_strict_right_mono)
  then have "b < overflowBound * b" by (simp only: mult_1)
  with ab show ?thesis by (rule le_less_trans)
qed

lemma fl_of_int: "\<bar>m\<bar> < 2 ^ 53 \<Longrightarrow> fl (of_int m) = Finite (of_int m)"
proof -
  assume m: "\<bar>m\<bar> < 2 ^ 53"
  then have "\<bar>real_of_int m\<bar> < 2 ^ 64"
  proof -
    from m have "real_of_int \<bar>m\<bar> < 2 ^ 53" by (metis of_int_less_numeral_power_cancel_iff)
    moreover have "(2::real) ^ 53 \<le> 2 ^ 64" by (rule power_increasing) simp_all
    ultimately show ?thesis by simp
  qed
  then have "\<bar>real_of_int m\<bar> < overflowBound" by (rule small_below_overflow overflow_scaled)
  with m show ?thesis by (intro fl_exact [of _ m 0]) (simp_all add: pow2_def)
qed

lemma fl_zero [simp]: "fl 0 = Finite 0"
  by (simp add: fl_def)

lemma fl_numeral [simp]: "numeral k < (2::int) ^ 53 \<Longrightarrow> fl (numeral k) = Finite (numeral k)"
  using fl_of_int [of "numeral k"] by simp

lemma dadd_nonneg: "Finite 0 \<le> a \<Longrightarrow> 0 \<le> v \<Longrightarrow> Finite 0 \<le> dadd a (Finite v)"
proof (cases a)
  case (Finite r)
  assume "Finite 0 \<le> a" and "0 \<le> v"
  with Finite have "0 \<le> r + v" by simp
  then show ?thesis by (simp add: Finite fl_nonneg)
qed (simp_all add: less_eq_double_def)

lemma Math_max_nonneg: "Finite 0 \<le> a \<Longrightarrow> Finite 0 \<le> b \<Longrightarrow> Math_max a b = max a b"
  by (cases a; cases b) (auto simp add: less_eq_double_def max_def)

text \<open>
  The doubles of the examples: \<^verbatim>\<open>0.1\<close>, \<^verbatim>\<open>0.2\<close> and \<^verbatim>\<open>0.05\<close> denote \<open>d01\<close>, \<open>d02\<close> and
  \<open>d005\<close>, \<^verbatim>\<open>0.3\<close> denotes \<open>5404319552844595 / 2 ^ 54\<close>, and \<^verbatim>\<open>0.1 + 0.2\<close> is the next
  double, \<open>5404319552844596 / 2 ^ 54\<close>, printed \<^verbatim>\<open>0.30000000000000004\<close>.
\<close>

lemma fl_tenth: "fl 0.1 = Finite d01"
  using fl_normal [of "- 4" "0.1"]
  by (simp add: pow2_def roundHalfEven_def Let_def d01_def small_below_overflow overflow_scaled)

lemma fl_fifth: "fl 0.2 = Finite d02"
  using fl_normal [of "- 3" "0.2"]
  by (simp add: pow2_def roundHalfEven_def Let_def d02_def small_below_overflow overflow_scaled)

lemma fl_twentieth: "fl 0.05 = Finite d005"
  using fl_normal [of "- 5" "0.05"]
  by (simp add: pow2_def roundHalfEven_def Let_def d005_def small_below_overflow overflow_scaled)

lemma fl_three_tenths: "fl 0.3 = Finite (5404319552844595 / 2 ^ 54)"
  using fl_normal [of "- 2" "0.3"]
  by (simp add: pow2_def roundHalfEven_def Let_def small_below_overflow overflow_scaled)

lemma fl_d01 [simp]: "fl d01 = Finite d01"
  by (rule fl_exact [of _ 3602879701896397 "- 55"])
    (simp_all add: d01_def pow2_def small_below_overflow overflow_scaled)

lemma fl_d02 [simp]: "fl d02 = Finite d02"
  by (rule fl_exact [of _ 3602879701896397 "- 54"])
    (simp_all add: d02_def pow2_def small_below_overflow overflow_scaled)

lemma fl_d005 [simp]: "fl d005 = Finite d005"
  by (rule fl_exact [of _ 3602879701896397 "- 56"])
    (simp_all add: d005_def pow2_def small_below_overflow overflow_scaled)

lemma d01_plus_d02 [simp]: "fl (d01 + d02) = Finite (5404319552844596 / 2 ^ 54)"
  using fl_normal [of "- 2" "d01 + d02"]
  by (simp add: pow2_def roundHalfEven_def Let_def d01_def d02_def small_below_overflow overflow_scaled)

section \<open>Cumulative layout shift\<close>

lemma sessionValue_groupingSum: "sessionValue g = groupingSum g"
  by (simp add: sessionValue_def groupingSum_def)

lemma groupingsFrom_not_Nil: "groupingsFrom joins start current es \<noteq> []"
  by (induction es arbitrary: start current) simp_all

lemma groupingsFrom_members:
  "g \<in> set (groupingsFrom joins start current es) \<Longrightarrow> set g \<subseteq> set current \<union> set es"
proof (induction es arbitrary: start current)
  case Nil
  then show ?case by simp
next
  case (Cons e es)
  show ?case
  proof (cases "joins (startTime e) start")
    case True
    with Cons.prems have "g \<in> set (groupingsFrom joins start (current @ [e]) es)" by simp
    from Cons.IH [OF this] show ?thesis by auto
  next
    case False
    with Cons.prems have "g = current \<or> g \<in> set (groupingsFrom joins (startTime e) [e] es)"
      by simp
    then show ?thesis
    proof
      assume "g = current" then show ?thesis by auto
    next
      assume "g \<in> set (groupingsFrom joins (startTime e) [e] es)"
      from Cons.IH [OF this] show ?thesis by auto
    qed
  qed
qed

text \<open>
  Where two starts are told apart by no entry, the groupings measured from them are the
  same.
\<close>

lemma groupingsFrom_start:
  "\<forall>e\<in>set es. joins (startTime e) a = joins (startTime e) b \<Longrightarrow>
   groupingsFrom joins a current es = groupingsFrom joins b current es"
  by (induction es arbitrary: current) simp_all

lemma foldl_dadd_nonneg:
  "Finite 0 \<le> a \<Longrightarrow> \<forall>e\<in>set g. 0 \<le> shiftValue e \<Longrightarrow>
   Finite 0 \<le> foldl (\<lambda>sum e. dadd sum (Finite (shiftValue e))) a g"
  by (induction g arbitrary: a) (simp_all add: dadd_nonneg)

lemma groupingSum_nonneg: "\<forall>e\<in>set g. 0 \<le> shiftValue e \<Longrightarrow> Finite 0 \<le> groupingSum g"
  unfolding groupingSum_def by (rule foldl_dadd_nonneg) simp_all

lemma foldl_gapStep:
  assumes "current \<noteq> []" and "Finite 0 \<le> m"
    and "\<forall>e\<in>set current \<union> set es. 0 \<le> shiftValue e"
  shows "(case foldl gapStep (m, current, start) es of
            (maxSessionValue, sess, sessionStart) \<Rightarrow>
              Math_max maxSessionValue (sessionValue sess)) =
         max m (Max (set (map groupingSum (groupingsFrom gapBelow start current es))))"
  using assms
proof (induction es arbitrary: m current start)
  case Nil
  then show ?case by (simp add: sessionValue_groupingSum Math_max_nonneg groupingSum_nonneg)
next
  case (Cons e es)
  show ?case
  proof (cases "gapBelow (startTime e) start")
    case True
    then have "gapStep (m, current, start) e = (m, current @ [e], start)"
      by (simp add: gapStep_def gapBelow_def)
    moreover have "current @ [e] \<noteq> []" by simp
    moreover from Cons.prems(3) have "\<forall>x\<in>set (current @ [e]) \<union> set es. 0 \<le> shiftValue x"
      by auto
    ultimately show ?thesis
      using Cons.IH [of "current @ [e]" m start] Cons.prems(2) True by simp
  next
    case False
    let ?rest = "groupingsFrom gapBelow (startTime e) [e] es"
    from Cons.prems(3) have cur: "Finite 0 \<le> groupingSum current"
      by (intro groupingSum_nonneg) auto
    from False Cons.prems(1)
    have "gapStep (m, current, start) e = (Math_max m (sessionValue current), [e], startTime e)"
      by (simp add: gapStep_def gapBelow_def)
    with cur Cons.prems(2)
    have st: "gapStep (m, current, start) e = (max m (groupingSum current), [e], startTime e)"
      by (simp add: sessionValue_groupingSum Math_max_nonneg)
    have m': "Finite 0 \<le> max m (groupingSum current)"
      using Cons.prems(2) by (simp add: le_max_iff_disj)
    from Cons.prems(3) have rest: "\<forall>x\<in>set [e] \<union> set es. 0 \<le> shiftValue x" by auto
    have ne: "set (map groupingSum ?rest) \<noteq> {}"
      using groupingsFrom_not_Nil [of gapBelow "startTime e" "[e]" es] by simp
    have "Max (set (map groupingSum (current # ?rest))) =
            max (groupingSum current) (Max (set (map groupingSum ?rest)))"
      using ne by (simp add: Max_insert)
    then show ?thesis
      using Cons.IH [of "[e]" "max m (groupingSum current)" "startTime e", OF _ m' rest] st False
      by (simp add: max.assoc)
  qed
qed

lemma Max_groupingSum_nonneg:
  assumes "\<forall>e\<in>set current \<union> set es. 0 \<le> shiftValue e"
  shows "Finite 0 \<le> Max (set (map groupingSum (groupingsFrom joins start current es)))"
proof -
  let ?gs = "groupingsFrom joins start current es"
  from groupingsFrom_not_Nil [of joins start current es]
  obtain g rest where gs: "?gs = g # rest" by (cases ?gs) auto
  then have "g \<in> set ?gs" by simp
  from groupingsFrom_members [OF this] assms have "Finite 0 \<le> groupingSum g"
    by (intro groupingSum_nonneg) auto
  moreover have "groupingSum g \<le> Max (set (map groupingSum ?gs))"
    using gs by (intro Max_ge) simp_all
  ultimately show ?thesis by (rule order_trans)
qed

text \<open>
  The result of the code for every sequence of entries with non-negative scores: the
  first grouping is measured from time 0, since \<^verbatim>\<open>sessionStart\<close> is set only when a later
  grouping begins.
\<close>

lemma calculateMaxSessionGap_Cons:
  assumes "\<forall>x\<in>set (e # es). 0 \<le> shiftValue x"
  shows "calculateMaxSessionGap (e # es) =
           Max (set (map groupingSum (groupingsFrom gapBelow 0 [e] es)))"
proof -
  from assms have nn: "\<forall>x\<in>set [e] \<union> set es. 0 \<le> shiftValue x" by simp
  have "gapStep (Finite 0, [], 0) e = (Finite 0, [e], 0)" by (simp add: gapStep_def)
  then have "calculateMaxSessionGap (e # es) =
      max (Finite 0) (Max (set (map groupingSum (groupingsFrom gapBelow 0 [e] es))))"
    using foldl_gapStep [of "[e]" "Finite 0" es 0, OF _ _ nn]
    by (simp add: calculateMaxSessionGap_def)
  with Max_groupingSum_nonneg [OF nn, of gapBelow 0] show ?thesis by (simp add: max_absorb2)
qed

lemma observeCLS_snoc:
  "observeCLS (es @ [e]) s =
     (if \<not> hadRecentInput e then updateCLS e (observeCLS es s) else observeCLS es s)"
  by (simp add: observeCLS_def)

lemma observeCLS_sessionEntries:
  "sessionEntries (observeCLS es s) = sessionEntries s @ filter (\<lambda>e. \<not> hadRecentInput e) es"
proof (induction es rule: rev_induct)
  case Nil
  then show ?case by (simp add: observeCLS_def)
next
  case (snoc e es)
  then show ?case by (simp add: observeCLS_snoc updateCLS_def Let_def)
qed

lemma observeCLS_cls:
  "filter (\<lambda>e. \<not> hadRecentInput e) es \<noteq> [] \<Longrightarrow>
   cls (metrics (observeCLS es s)) =
     calculateMaxSessionGap (sessionEntries s @ filter (\<lambda>e. \<not> hadRecentInput e) es)"
proof (induction es rule: rev_induct)
  case Nil
  then show ?case by simp
next
  case (snoc e es)
  show ?case
  proof (cases "hadRecentInput e")
    case True
    with snoc show ?thesis by (simp add: observeCLS_snoc)
  next
    case False
    then show ?thesis
      by (simp add: observeCLS_snoc updateCLS_def observeCLS_sessionEntries Let_def)
  qed
qed

lemma sessionEntries_collectNavigationMetrics [simp]:
  "sessionEntries (collectNavigationMetrics s) = sessionEntries s"
  by (simp add: collectNavigationMetrics_def split: option.splits navigationEntry.splits)

lemma sessionEntries_newPerformanceTracker [simp]:
  "sessionEntries (newPerformanceTracker s) = []"
  by (simp add: newPerformanceTracker_def initializeTracking_def Let_def)

lemma sessionEntries_setupEventListeners [simp]:
  "sessionEntries (setupEventListeners s) = sessionEntries s"
  by (simp add: setupEventListeners_def randomUUID_def)

lemma sessionEntries_construct: "sessionEntries (construct env) = []"
  by (simp add: construct_def Let_def split: prod.splits)

lemma example_scores: "0 \<le> d01" "0 \<le> d02" "0 \<le> d005" "0 < d01" "d01 < d02"
  by (simp_all add: d01_def d02_def d005_def)

lemmas cls_defs =
  calculateMaxSessionGap_def gapStep_def sessionValue_def shift_def maxGroupingSum_def
  groupings_def groupingSum_def gapBelow_def gapWithin_def dsub_def claimedCLS_def exactSum_def

text \<open>
  Claim C1, as amended. For a fresh observer and a non-empty sequence of layout-shift
  entries without the had-recent-input flag, with non-negative scores, the reported CLS
  is the maximum over the groupings of the sum of the scores of a grouping, the scores
  being added as doubles in arrival order, where an entry joins the current grouping
  exactly when the gap between its \<^verbatim>\<open>startTime\<close> and the start of that grouping,
  subtracted as doubles, is below 1000 ms, and begins a new grouping, whose start is its
  own \<^verbatim>\<open>startTime\<close>, otherwise; provided that these groupings are those obtained when the
  first grouping is measured from time 0, where the code measures it from.
\<close>

theorem cls_is_max_grouping_sum:
  assumes "sessionEntries s = []"
    and "es \<noteq> []"
    and "\<forall>e\<in>set es. \<not> hadRecentInput e \<and> 0 \<le> shiftValue e"
    and "groupingsFrom gapBelow 0 [hd es] (tl es) = groupings gapBelow es"
  shows "cls (metrics (observeCLS es s)) = maxGroupingSum gapBelow es"
proof -
  from assms(2) obtain e rest where es: "es = e # rest" by (cases es) auto
  from assms(3) have flt: "filter (\<lambda>e. \<not> hadRecentInput e) es = es" by (simp add: filter_id_conv)
  with assms(1,2) have "cls (metrics (observeCLS es s)) = calculateMaxSessionGap es"
    using observeCLS_cls [of es s] by simp
  also have "\<dots> = Max (set (map groupingSum (groupingsFrom gapBelow 0 [e] rest)))"
    unfolding es using assms(3) by (intro calculateMaxSessionGap_Cons) (simp add: es)
  also have "\<dots> = maxGroupingSum gapBelow es"
    using assms(4) by (simp add: es maxGroupingSum_def)
  finally show ?thesis .
qed

text \<open>
  The example of the specification: scores 0.1 and 0.2 at times 0 and 500, then 0.05 at
  time 2000, give a CLS of 0.30000000000000004, the double \<^verbatim>\<open>0.1 + 0.2\<close>. The same scores
  100 ms later, where the first grouping is the same from time 0 and from time 100, give
  the same.
\<close>

theorem cls_example_witness:
  "cls (metrics (observeCLS [shift 0 d01, shift 500 d02, shift 2000 d005] (construct examplePage)))
     = Finite (5404319552844596 / 2 ^ 54) \<and>
   maxGroupingSum gapBelow [shift 0 d01, shift 500 d02, shift 2000 d005]
     = Finite (5404319552844596 / 2 ^ 54) \<and>
   cls (metrics (observeCLS [shift 100 d01, shift 600 d02, shift 2100 d005] (construct examplePage)))
     = Finite (5404319552844596 / 2 ^ 54) \<and>
   maxGroupingSum gapBelow [shift 100 d01, shift 600 d02, shift 2100 d005]
     = Finite (5404319552844596 / 2 ^ 54)"
proof -
  let ?es = "[shift 0 d01, shift 500 d02, shift 2000 d005]"
  let ?fs = "[shift 100 d01, shift 600 d02, shift 2100 d005]"
  have v: "maxGroupingSum gapBelow ?es = Finite (5404319552844596 / 2 ^ 54)"
    by (simp add: cls_defs) (simp add: d005_def)
  have w: "maxGroupingSum gapBelow ?fs = Finite (5404319552844596 / 2 ^ 54)"
    by (simp add: cls_defs) (simp add: d005_def)
  have "cls (metrics (observeCLS ?es (construct examplePage))) = maxGroupingSum gapBelow ?es"
    by (rule cls_is_max_grouping_sum)
      (simp_all add: sessionEntries_construct shift_def groupings_def gapBelow_def dsub_def
        example_scores)
  moreover
  have "cls (metrics (observeCLS ?fs (construct examplePage))) = maxGroupingSum gapBelow ?fs"
    by (rule cls_is_max_grouping_sum)
      (simp_all add: sessionEntries_construct shift_def groupings_def gapBelow_def dsub_def
        example_scores)
  ultimately show ?thesis using v w by simp
qed

text \<open>
  Claim C1 as stated fails at a gap of exactly 1000 ms: the code begins a new grouping
  there (scores 0.1 and 0.2 give a CLS of 0.2), where "does not exceed 1000 ms" keeps one
  grouping, whose sum is 0.1 + 0.2 whether added as doubles or as numbers. It also fails
  on its own example: the code reports the double \<^verbatim>\<open>0.1 + 0.2\<close>, which is not the double
  \<^verbatim>\<open>0.3\<close>.
\<close>

theorem cls_boundary_counterexample:
  "cls (metrics (observeCLS [shift 0 d01, shift 1000 d02] (construct examplePage))) = Finite d02 \<and>
   maxGroupingSum gapWithin [shift 0 d01, shift 1000 d02] = Finite (5404319552844596 / 2 ^ 54) \<and>
   claimedCLS [shift 0 d01, shift 1000 d02] = d01 + d02 \<and>
   cls (metrics (observeCLS [shift 0 d01, shift 1000 d02] (construct examplePage))) \<noteq>
     maxGroupingSum gapWithin [shift 0 d01, shift 1000 d02] \<and>
   cls (metrics (observeCLS [shift 0 d01, shift 1000 d02] (construct examplePage))) \<noteq>
     Finite (claimedCLS [shift 0 d01, shift 1000 d02]) \<and>
   claimedCLS [shift 0 d01, shift 500 d02, shift 2000 d005] = d01 + d02 \<and>
   cls (metrics (observeCLS [shift 0 d01, shift 500 d02, shift 2000 d005] (construct examplePage)))
     = Finite (5404319552844596 / 2 ^ 54) \<and>
   fl 0.3 = Finite (5404319552844595 / 2 ^ 54) \<and>
   cls (metrics (observeCLS [shift 0 d01, shift 500 d02, shift 2000 d005] (construct examplePage)))
     \<noteq> fl 0.3"
proof -
  let ?es = "[shift 0 d01, shift 1000 d02]"
  let ?fs = "[shift 0 d01, shift 500 d02, shift 2000 d005]"
  have "filter (\<lambda>e. \<not> hadRecentInput e) ?es = ?es" by (simp add: shift_def)
  then have "cls (metrics (observeCLS ?es (construct examplePage))) = calculateMaxSessionGap ?es"
    using observeCLS_cls [of ?es "construct examplePage"] by (simp add: sessionEntries_construct)
  also have "\<dots> = Finite d02"
    by (simp add: cls_defs example_scores)
  finally have a: "cls (metrics (observeCLS ?es (construct examplePage))) = Finite d02" .
  have b: "maxGroupingSum gapWithin ?es = Finite (5404319552844596 / 2 ^ 54)"
    by (simp add: cls_defs)
  have c: "claimedCLS ?es = d01 + d02"
    by (simp add: cls_defs)
  have "filter (\<lambda>e. \<not> hadRecentInput e) ?fs = ?fs" by (simp add: shift_def)
  then have "cls (metrics (observeCLS ?fs (construct examplePage))) = calculateMaxSessionGap ?fs"
    using observeCLS_cls [of ?fs "construct examplePage"] by (simp add: sessionEntries_construct)
  also have "\<dots> = Finite (5404319552844596 / 2 ^ 54)"
    by (simp add: cls_defs) (simp add: d005_def)
  finally have d: "cls (metrics (observeCLS ?fs (construct examplePage))) =
    Finite (5404319552844596 / 2 ^ 54)" .
  have e: "claimedCLS ?fs = d01 + d02"
    by (simp add: cls_defs) (simp add: d01_def d02_def d005_def)
  have f: "Finite d02 \<noteq> Finite (5404319552844596 / 2 ^ 54)" "Finite d02 \<noteq> Finite (d01 + d02)"
    by (simp_all add: d01_def d02_def)
  from a b c d e f show ?thesis by (simp add: fl_three_tenths)
qed

text \<open>
  The first grouping is measured from time 0, not from its first entry: \<^verbatim>\<open>sessionStart\<close>
  is set only when a later grouping begins. Two shifts 500 ms apart, five seconds after
  the page began, are therefore counted apart by the code.
\<close>

lemma first_grouping_anchored_at_origin:
  "calculateMaxSessionGap [shift 5000 d01, shift 5500 d02] = Finite d02 \<and>
   maxGroupingSum gapBelow [shift 5000 d01, shift 5500 d02] = Finite (5404319552844596 / 2 ^ 54)"
  by (simp add: cls_defs example_scores)

section \<open>Interaction to next paint\<close>

lemma foldl_push_interactionTimes:
  "interactionTimes (foldl (\<lambda>s entry. s\<lparr>interactionTimes := interactionTimes s @ [duration entry]\<rparr>) s es)
     = interactionTimes s @ map duration es"
  by (induction es arbitrary: s) simp_all

lemma percentile_index: "nat \<lfloor>real n * 0.75\<rfloor> = (3 * n) div 4"
proof -
  have "real n * 0.75 = real (3 * n) / real 4" by simp
  then have "\<lfloor>real n * 0.75\<rfloor> = \<lfloor>real (3 * n) / real 4\<rfloor>" by (simp only:)
  also have "\<dots> = int ((3 * n) div 4)" by (rule floor_divide_of_nat_eq)
  finally show ?thesis by simp
qed

lemma percentile_index_less: "0 < n \<Longrightarrow> nat \<lfloor>real n * 0.75\<rfloor> < n"
  unfolding percentile_index by arith

lemma observeINP_interactionTimes:
  "interactionTimes (observeINP es s) = interactionTimes s @ map duration es"
  by (simp add: observeINP_def Let_def foldl_push_interactionTimes)

lemma interactionTimes_construct: "interactionTimes (construct env) = []"
  by (simp add: construct_def Let_def setupEventListeners_def randomUUID_def
      newPerformanceTracker_def initializeTracking_def collectNavigationMetrics_def
      split: prod.splits option.splits navigationEntry.splits)

text \<open>
  Claim C7. After each batch of interaction entries the history is the earlier history
  followed by the durations of the batch, in order; when it is not empty, with length
  \<open>n\<close>, the index \<open>floor (n * 0.75)\<close> lies inside it and the reported INP is the element at
  that index of the history sorted ascending.
\<close>

theorem inp_is_percentile_element:
  "interactionTimes (observeINP es s) = interactionTimes s @ map duration es \<and>
   (interactionTimes s @ map duration es \<noteq> [] \<longrightarrow>
      nat \<lfloor>real (length (interactionTimes s @ map duration es)) * 0.75\<rfloor>
        < length (interactionTimes s @ map duration es) \<and>
      inp (metrics (observeINP es s)) =
        Some (sort (interactionTimes s @ map duration es) !
                nat \<lfloor>real (length (interactionTimes s @ map duration es)) * 0.75\<rfloor>))"
proof (intro conjI impI)
  let ?h = "interactionTimes s @ map duration es"
  show "interactionTimes (observeINP es s) = ?h" by (rule observeINP_interactionTimes)
  assume ne: "?h \<noteq> []"
  then have pos: "0 < length ?h" by simp
  from percentile_index_less [OF pos]
  show lt: "nat \<lfloor>real (length ?h) * 0.75\<rfloor> < length ?h" .
  then have "index (sort ?h) (nat \<lfloor>real (length ?h) * 0.75\<rfloor>) =
               Some (sort ?h ! nat \<lfloor>real (length ?h) * 0.75\<rfloor>)"
    by (simp add: index_def)
  with ne show "inp (metrics (observeINP es s)) = Some (sort ?h ! nat \<lfloor>real (length ?h) * 0.75\<rfloor>)"
    by (simp add: observeINP_def Let_def foldl_push_interactionTimes)
qed

text \<open>
  The example of the specification: the durations 10, 50, 100, 40 give an INP of 100.
\<close>

theorem inp_example_witness:
  "inp (metrics (observeINP (map interaction [10, 50, 100, 40]) (construct examplePage))) = Some 100"
  using inp_is_percentile_element [of "map interaction [10, 50, 100, 40]" "construct examplePage"]
  by (simp add: interactionTimes_construct interaction_def)

section \<open>Callbacks and the dispatch state\<close>

subsection \<open>Callbacks that leave the dispatch state alone\<close>

lemma untouched_refl [simp]: "untouched s s"
  by (simp add: untouched_def)

lemma untouched_trans: "untouched a b \<Longrightarrow> untouched b c \<Longrightarrow> untouched a c"
  by (simp add: untouched_def)

lemma untouched_foldl:
  assumes "\<And>s e. untouched s (f s e)"
  shows "untouched s (foldl f s es)"
proof (induction es arbitrary: s)
  case Nil
  show ?case by simp
next
  case (Cons e es)
  have "untouched s (f s e)" by (rule assms)
  moreover have "untouched (f s e) (foldl f (f s e) es)" by (rule Cons.IH)
  ultimately show ?case using untouched_trans by simp
qed

lemma untouched_observePaint: "untouched s (observePaint es s)"
  unfolding observePaint_def by (rule untouched_foldl) (simp add: untouched_def)

lemma untouched_observeLCP: "untouched s (observeLCP es s)"
  unfolding observeLCP_def by (rule untouched_foldl) (simp add: untouched_def)

lemma untouched_observeCLS: "untouched s (observeCLS es s)"
  unfolding observeCLS_def by (rule untouched_foldl) (simp add: untouched_def updateCLS_def Let_def)

lemma untouched_observeLongTasks: "untouched s (observeLongTasks es s)"
  unfolding observeLongTasks_def by (rule untouched_foldl) (simp add: untouched_def Let_def)

lemma untouched_observeResources: "untouched s (observeResources es s)"
  unfolding observeResources_def by (rule untouched_foldl) (simp add: untouched_def)

lemma untouched_observeINP: "untouched s (observeINP es s)"
proof -
  let ?s1 = "s\<lparr>metrics := (metrics s)\<lparr>interactionCount := interactionCount (metrics s) + length es\<rparr>\<rparr>"
  let ?s2 = "foldl (\<lambda>s entry. s\<lparr>interactionTimes := interactionTimes s @ [duration entry]\<rparr>) ?s1 es"
  have a: "untouched s ?s1" by (simp add: untouched_def)
  have b: "untouched ?s1 ?s2" by (rule untouched_foldl) (simp add: untouched_def)
  have c: "untouched s ?s2" by (rule untouched_trans [OF a b])
  then show ?thesis by (simp add: observeINP_def Let_def untouched_def)
qed

lemma untouched_collectNavigationMetrics: "untouched s (collectNavigationMetrics s)"
  by (simp add: collectNavigationMetrics_def untouched_def split: option.splits navigationEntry.splits)

lemma untouched_collectPerformanceMetrics: "untouched s (collectPerformanceMetrics s)"
  by (simp add: collectPerformanceMetrics_def untouched_def Let_def split: option.splits prod.splits)

lemma untouched_fields:
  assumes "untouched s s'"
  shows "beacons s' = beacons s" and "suspended s' = suspended s" and "session s' = session s"
    and "isDestroyed s' = isDestroyed s" and "finalMetricsSent s' = finalMetricsSent s"
    and "localStorage s' = localStorage s" and "storageFaults s' = storageFaults s"
    and "sessionReady s' = sessionReady s"
    and "waitingWithoutSession s' = waitingWithoutSession s"
    and "vitalsBudget s' = vitalsBudget s"
  using assms
  by (simp_all add: untouched_def sessionReady_def waitingWithoutSession_def vitalsBudget_def
      eventLoad_def)

lemmas observePaint_frame [simp] = untouched_fields [OF untouched_observePaint]
lemmas observeLCP_frame [simp] = untouched_fields [OF untouched_observeLCP]
lemmas observeCLS_frame [simp] = untouched_fields [OF untouched_observeCLS]
lemmas observeINP_frame [simp] = untouched_fields [OF untouched_observeINP]
lemmas observeLongTasks_frame [simp] = untouched_fields [OF untouched_observeLongTasks]
lemmas observeResources_frame [simp] = untouched_fields [OF untouched_observeResources]
lemmas collectNavigationMetrics_frame [simp] =
  untouched_fields [OF untouched_collectNavigationMetrics]
lemmas collectPerformanceMetrics_frame [simp] =
  untouched_fields [OF untouched_collectPerformanceMetrics]

text \<open>Changes of the environment and of the timers leave the dispatch state alone too.\<close>

lemma untouched_updates [simp]:
  "untouched s (s\<lparr>readyStateComplete := c\<rparr>)"
  "untouched s (s\<lparr>visibilityState := v\<rparr>)"
  "untouched s (s\<lparr>location_pathname := path, location_href := href\<rparr>)"
  "untouched s (s\<lparr>Date_now := t\<rparr>)"
  "untouched s (s\<lparr>drawn := k\<rparr>)"
  "untouched s (s\<lparr>initialPathname := path\<rparr>)"
  "untouched s (s\<lparr>sessionInterval := b\<rparr>)"
  by (simp_all add: untouched_def)

lemmas readyStateComplete_frame [simp] = untouched_fields(8-10) [OF untouched_updates(1)]
lemmas visibilityState_frame [simp] = untouched_fields(8-10) [OF untouched_updates(2)]
lemmas location_frame [simp] = untouched_fields(8-10) [OF untouched_updates(3)]
lemmas Date_now_frame [simp] = untouched_fields(8-10) [OF untouched_updates(4)]
lemmas drawn_frame [simp] = untouched_fields(8-10) [OF untouched_updates(5)]
lemmas initialPathname_frame [simp] = untouched_fields(8-10) [OF untouched_updates(6)]
lemmas sessionInterval_frame [simp] = untouched_fields(8-10) [OF untouched_updates(7)]

subsection \<open>trackEvent\<close>

lemma trackEvent_destroyed: "isDestroyed s \<Longrightarrow> trackEvent n d s = s"
  by (simp add: trackEvent_def)

lemma trackEvent_frame [simp]:
  "session (trackEvent n d s) = session s"
  "isDestroyed (trackEvent n d s) = isDestroyed s"
  "finalMetricsSent (trackEvent n d s) = finalMetricsSent s"
  "localStorage (trackEvent n d s) = localStorage s"
  "storageFaults (trackEvent n d s) = storageFaults s"
  by (simp_all add: trackEvent_def composeAndSend_def sendAnalyticsRequest_def split: option.splits)

lemma waiting_trackEvent:
  "waitingWithoutSession s \<Longrightarrow> waitingWithoutSession (trackEvent n d s)"
  by (auto simp add: waitingWithoutSession_def trackEvent_def composeAndSend_def
      sendAnalyticsRequest_def sessionReady_def split: option.splits)

lemma eventLoad_trackEvent:
  "eventLoad m (trackEvent n d s) =
     (if isDestroyed s then eventLoad m s else eventLoad m s + (if n = m then 1 else 0))"
  by (simp add: trackEvent_def composeAndSend_def sendAnalyticsRequest_def sessionReady_def
      eventLoad_def countEvent_def composePayload_def split: option.splits)

lemma budget_trackEvent:
  "n \<noteq> WEB_VITALS \<Longrightarrow> vitalsBudget (trackEvent n d s) = vitalsBudget s"
  by (simp add: vitalsBudget_def eventLoad_trackEvent)

subsection \<open>The resumed call\<close>

lemma resumeTrackEvent_frame [simp]:
  "session (resumeTrackEvent s) = session s"
  "isDestroyed (resumeTrackEvent s) = isDestroyed s"
  "finalMetricsSent (resumeTrackEvent s) = finalMetricsSent s"
  by (simp_all add: resumeTrackEvent_def composeAndSend_def sendAnalyticsRequest_def Let_def
      split: list.splits prod.splits option.splits)

lemma resumeTrackEvent_waiting:
  "waitingWithoutSession s \<Longrightarrow>
   beacons (resumeTrackEvent s) = beacons s \<and> waitingWithoutSession (resumeTrackEvent s)"
  by (auto simp add: waitingWithoutSession_def resumeTrackEvent_def Let_def sessionReady_def
      split: list.splits prod.splits option.splits)

lemma eventLoad_resumeTrackEvent: "eventLoad m (resumeTrackEvent s) \<le> eventLoad m s"
  by (simp add: resumeTrackEvent_def composeAndSend_def sendAnalyticsRequest_def Let_def
      sessionReady_def eventLoad_def countEvent_def composePayload_def
      split: list.splits prod.splits option.splits)

lemma budget_resumeTrackEvent: "vitalsBudget (resumeTrackEvent s) \<le> vitalsBudget s"
  using eventLoad_resumeTrackEvent [of WEB_VITALS s] by (simp add: vitalsBudget_def)

subsection \<open>The final metrics\<close>

lemma sendFinalMetrics_frame [simp]:
  "session (sendFinalMetrics s) = session s"
  "isDestroyed (sendFinalMetrics s) = isDestroyed s"
  "localStorage (sendFinalMetrics s) = localStorage s"
  using untouched_collectPerformanceMetrics [of "s\<lparr>finalMetricsSent := True\<rparr>"]
  by (simp_all add: sendFinalMetrics_def Let_def untouched_def)

lemma sendFinalMetrics_sent: "finalMetricsSent s \<Longrightarrow> sendFinalMetrics s = s"
  by (simp add: sendFinalMetrics_def)

lemma finalMetricsSent_sendFinalMetrics [simp]: "finalMetricsSent (sendFinalMetrics s)"
  by (simp add: sendFinalMetrics_def Let_def)

lemma sendFinalMetrics_destroyed:
  "isDestroyed s \<Longrightarrow>
   beacons (sendFinalMetrics s) = beacons s \<and> suspended (sendFinalMetrics s) = suspended s"
  using untouched_collectPerformanceMetrics [of "s\<lparr>finalMetricsSent := True\<rparr>"]
  by (simp add: sendFinalMetrics_def Let_def untouched_def trackEvent_destroyed)

lemma waiting_sendFinalMetrics:
  "waitingWithoutSession s \<Longrightarrow> waitingWithoutSession (sendFinalMetrics s)"
proof (cases "finalMetricsSent s")
  case True
  assume "waitingWithoutSession s"
  with True show ?thesis by (simp add: sendFinalMetrics_sent)
next
  case False
  assume w: "waitingWithoutSession s"
  let ?s2 = "collectPerformanceMetrics (s\<lparr>finalMetricsSent := True\<rparr>)"
  have "untouched (s\<lparr>finalMetricsSent := True\<rparr>) ?s2" by (rule untouched_collectPerformanceMetrics)
  then have "waitingWithoutSession ?s2"
    using w by (simp add: untouched_def waitingWithoutSession_def sessionReady_def)
  then have "waitingWithoutSession (trackEvent WEB_VITALS (WebVitals (metrics ?s2)) ?s2)"
    by (rule waiting_trackEvent)
  with False show ?thesis by (simp add: sendFinalMetrics_def Let_def)
qed

lemma budget_sendFinalMetrics: "vitalsBudget (sendFinalMetrics s) \<le> vitalsBudget s"
proof (cases "finalMetricsSent s")
  case True
  then show ?thesis by (simp add: sendFinalMetrics_sent)
next
  case False
  let ?s2 = "collectPerformanceMetrics (s\<lparr>finalMetricsSent := True\<rparr>)"
  have "untouched (s\<lparr>finalMetricsSent := True\<rparr>) ?s2" by (rule untouched_collectPerformanceMetrics)
  then have "eventLoad WEB_VITALS ?s2 = eventLoad WEB_VITALS s"
    by (simp add: untouched_def eventLoad_def)
  then have "eventLoad WEB_VITALS (trackEvent WEB_VITALS (WebVitals (metrics ?s2)) ?s2)
               \<le> eventLoad WEB_VITALS s + 1"
    by (simp add: eventLoad_trackEvent)
  with False show ?thesis by (simp add: sendFinalMetrics_def Let_def vitalsBudget_def)
qed

subsection \<open>Page views, session end, refresh, destroy\<close>

lemma trackPageView_frame [simp]:
  "session (trackPageView s) = session s"
  "isDestroyed (trackPageView s) = isDestroyed s"
  "finalMetricsSent (trackPageView s) = finalMetricsSent s"
  by (simp_all add: trackPageView_def)

lemma waiting_trackPageView:
  "waitingWithoutSession s \<Longrightarrow> waitingWithoutSession (trackPageView s)"
  using waiting_trackEvent [of s PAGE_VIEW NoData]
  by (simp add: trackPageView_def waitingWithoutSession_def sessionReady_def)

lemma budget_trackPageView: "vitalsBudget (trackPageView s) = vitalsBudget s"
  using budget_trackEvent [of PAGE_VIEW NoData s]
  by (simp add: trackPageView_def vitalsBudget_def eventLoad_def PAGE_VIEW_def WEB_VITALS_def)

lemma sessionEndHandler_frame [simp]:
  "session (sessionEndHandler s) = session s"
  "isDestroyed (sessionEndHandler s) = isDestroyed s"
  "finalMetricsSent (sessionEndHandler s) = finalMetricsSent s"
  by (simp_all add: sessionEndHandler_def split: option.splits)

lemma sessionEndHandler_destroyed: "isDestroyed s \<Longrightarrow> sessionEndHandler s = s"
  by (simp add: sessionEndHandler_def trackEvent_destroyed split: option.splits)

lemma waiting_sessionEndHandler:
  "waitingWithoutSession s \<Longrightarrow> waitingWithoutSession (sessionEndHandler s)"
  by (simp add: sessionEndHandler_def waiting_trackEvent split: option.splits)

lemma budget_sessionEndHandler: "vitalsBudget (sessionEndHandler s) = vitalsBudget s"
  by (simp add: sessionEndHandler_def budget_trackEvent SESSION_END_def WEB_VITALS_def
      split: option.splits)

lemma refreshSession_frame [simp]:
  "beacons (refreshSession s) = beacons s"
  "suspended (refreshSession s) = suspended s"
  "isDestroyed (refreshSession s) = isDestroyed s"
  "finalMetricsSent (refreshSession s) = finalMetricsSent s"
  "sessionReady (refreshSession s) = sessionReady s"
  by (simp_all add: refreshSession_def setItem_def Let_def sessionReady_def split: option.splits)

lemma waiting_refreshSession [simp]:
  "waitingWithoutSession (refreshSession s) = waitingWithoutSession s"
  by (simp add: waitingWithoutSession_def)

lemma budget_refreshSession [simp]: "vitalsBudget (refreshSession s) = vitalsBudget s"
  by (simp add: vitalsBudget_def eventLoad_def)

lemma destroy_frame [simp]:
  "isDestroyed (destroy s)"
  "finalMetricsSent (destroy s)"
  "session (destroy s) = session s"
  "beacons (destroy s) = beacons s"
  "suspended (destroy s) = suspended s"
  by (simp_all add: destroy_def destroyPerformanceTracker_def Let_def sendFinalMetrics_destroyed)

lemma waiting_destroy [simp]: "waitingWithoutSession (destroy s) = waitingWithoutSession s"
  by (simp add: waitingWithoutSession_def sessionReady_def)

lemma budget_destroy: "vitalsBudget (destroy s) \<le> vitalsBudget s"
  by (simp add: vitalsBudget_def eventLoad_def)

subsection \<open>One step of the page\<close>

lemma step_destroyed:
  assumes "isDestroyed s" and "waitingWithoutSession s"
  shows "beacons (step sig s) = beacons s \<and> isDestroyed (step sig s) \<and>
         waitingWithoutSession (step sig s)"
proof (cases sig)
  case (PaintEntries es)
  with assms show ?thesis by simp
next
  case (LcpEntries es)
  with assms show ?thesis by simp
next
  case (LayoutShiftEntries es)
  with assms show ?thesis by simp
next
  case (EventEntries es)
  with assms show ?thesis by simp
next
  case (LongTaskEntries es)
  with assms show ?thesis by simp
next
  case (ResourceEntries es)
  with assms show ?thesis by simp
next
  case (ReadyStateChange c)
  with assms show ?thesis by (simp add: Let_def)
next
  case (VisibilityChange v)
  let ?s1 = "s\<lparr>visibilityState := Hidden\<rparr>"
  from assms have d: "isDestroyed ?s1" and w: "waitingWithoutSession ?s1" by simp_all
  from sendFinalMetrics_destroyed [OF d] waiting_sendFinalMetrics [OF w] assms VisibilityChange
  show ?thesis by (simp add: Let_def)
next
  case BeforeUnload
  let ?s1 = "if tracking s then sendFinalMetrics s else s"
  from assms have d: "isDestroyed ?s1" by simp
  from assms sendFinalMetrics_destroyed [of s] have b: "beacons ?s1 = beacons s" by simp
  from assms waiting_sendFinalMetrics [of s] have w: "waitingWithoutSession ?s1" by simp
  from BeforeUnload d b w show ?thesis by (simp add: sessionEndHandler_destroyed del: if_split)
next
  case HashChange
  with assms show ?thesis by simp
next
  case DomMutation
  with assms show ?thesis by simp
next
  case (Navigate path href)
  with assms show ?thesis by (simp add: waitingWithoutSession_def sessionReady_def)
next
  case RefreshTimer
  with assms show ?thesis by simp
next
  case GraceTimer
  with assms resumeTrackEvent_waiting [of s] show ?thesis by simp
next
  case (ClockAdvance n)
  with assms show ?thesis by (simp add: waitingWithoutSession_def sessionReady_def)
next
  case (StorageFaults fs)
  with assms show ?thesis by (simp add: waitingWithoutSession_def sessionReady_def)
next
  case (LynqTrack eventName properties)
  with assms show ?thesis
    by (simp add: randomUUID_def trackEvent_destroyed waitingWithoutSession_def sessionReady_def)
next
  case (YourTracking eventName data)
  with assms show ?thesis by (simp add: trackEvent_destroyed)
next
  case Destroy
  with assms show ?thesis by simp
qed

lemma run_Cons: "run (sig # sigs) s = run sigs (step sig s)"
  by (simp add: run_def)

lemma run_Nil: "run [] s = s"
  by (simp add: run_def)

lemma run_destroyed:
  "isDestroyed s \<Longrightarrow> waitingWithoutSession s \<Longrightarrow> beacons (run sigs s) = beacons s"
proof (induction sigs arbitrary: s)
  case Nil
  show ?case by (simp add: run_Nil)
next
  case (Cons sig sigs)
  from step_destroyed [OF Cons.prems, of sig]
  have b: "beacons (step sig s) = beacons s" and d: "isDestroyed (step sig s)"
    and w: "waitingWithoutSession (step sig s)" by simp_all
  from Cons.IH [OF d w] b show ?case by (simp add: run_Cons)
qed

lemma step_waiting:
  assumes "waitingWithoutSession s"
  shows "waitingWithoutSession (step sig s)"
proof (cases sig)
  case (PaintEntries es)
  with assms show ?thesis by simp
next
  case (LcpEntries es)
  with assms show ?thesis by simp
next
  case (LayoutShiftEntries es)
  with assms show ?thesis by simp
next
  case (EventEntries es)
  with assms show ?thesis by simp
next
  case (LongTaskEntries es)
  with assms show ?thesis by simp
next
  case (ResourceEntries es)
  with assms show ?thesis by simp
next
  case (ReadyStateChange c)
  with assms show ?thesis by (simp add: Let_def)
next
  case (VisibilityChange v)
  from assms have "waitingWithoutSession (s\<lparr>visibilityState := Hidden\<rparr>)" by simp
  from waiting_sendFinalMetrics [OF this] assms VisibilityChange
  show ?thesis by (simp add: Let_def)
next
  case BeforeUnload
  from assms waiting_sendFinalMetrics [of s]
  have "waitingWithoutSession (if tracking s then sendFinalMetrics s else s)" by simp
  from waiting_sessionEndHandler [OF this] BeforeUnload show ?thesis by simp
next
  case HashChange
  with assms show ?thesis by simp
next
  case DomMutation
  with assms waiting_trackPageView [of s] show ?thesis by simp
next
  case (Navigate path href)
  with assms show ?thesis by (simp add: waitingWithoutSession_def sessionReady_def)
next
  case RefreshTimer
  with assms show ?thesis by simp
next
  case GraceTimer
  with assms resumeTrackEvent_waiting [of s] show ?thesis by simp
next
  case (ClockAdvance n)
  with assms show ?thesis by (simp add: waitingWithoutSession_def sessionReady_def)
next
  case (StorageFaults fs)
  with assms show ?thesis by (simp add: waitingWithoutSession_def sessionReady_def)
next
  case (LynqTrack eventName properties)
  from assms have "waitingWithoutSession (s\<lparr>drawn := Suc (drawn s)\<rparr>)"
    by (simp add: waitingWithoutSession_def sessionReady_def)
  from waiting_trackEvent [OF this] LynqTrack assms show ?thesis
    by (simp add: randomUUID_def)
next
  case (YourTracking eventName data)
  with assms show ?thesis by (simp add: waiting_trackEvent)
next
  case Destroy
  with assms show ?thesis by simp
qed

lemma step_budget:
  assumes "\<not> hostUses WEB_VITALS sig"
  shows "vitalsBudget (step sig s) \<le> vitalsBudget s"
proof (cases sig)
  case (PaintEntries es)
  then show ?thesis by simp
next
  case (LcpEntries es)
  then show ?thesis by simp
next
  case (LayoutShiftEntries es)
  then show ?thesis by simp
next
  case (EventEntries es)
  then show ?thesis by simp
next
  case (LongTaskEntries es)
  then show ?thesis by simp
next
  case (ResourceEntries es)
  then show ?thesis by simp
next
  case (ReadyStateChange c)
  then show ?thesis by (simp add: Let_def)
next
  case (VisibilityChange v)
  with budget_sendFinalMetrics [of "s\<lparr>visibilityState := Hidden\<rparr>"]
  show ?thesis by (simp add: Let_def)
next
  case BeforeUnload
  from budget_sendFinalMetrics [of s]
  have "vitalsBudget (if tracking s then sendFinalMetrics s else s) \<le> vitalsBudget s" by simp
  with BeforeUnload show ?thesis by (simp add: budget_sessionEndHandler del: if_split)
next
  case HashChange
  then show ?thesis by simp
next
  case DomMutation
  then show ?thesis by (simp add: budget_trackPageView)
next
  case (Navigate path href)
  then show ?thesis by (simp add: vitalsBudget_def eventLoad_def)
next
  case RefreshTimer
  then show ?thesis by simp
next
  case GraceTimer
  then show ?thesis by (simp add: budget_resumeTrackEvent)
next
  case (ClockAdvance n)
  then show ?thesis by (simp add: vitalsBudget_def eventLoad_def)
next
  case (StorageFaults fs)
  then show ?thesis by (simp add: vitalsBudget_def eventLoad_def)
next
  case (LynqTrack eventName properties)
  have "vitalsBudget (s\<lparr>drawn := Suc (drawn s)\<rparr>) = vitalsBudget s"
    by (simp add: vitalsBudget_def eventLoad_def)
  with LynqTrack show ?thesis
    by (simp add: randomUUID_def budget_trackEvent CUSTOM_EVENT_def WEB_VITALS_def)
next
  case (YourTracking eventName data)
  with assms show ?thesis by (simp add: budget_trackEvent)
next
  case Destroy
  then show ?thesis by (simp add: budget_destroy)
qed

lemma run_budget:
  "\<forall>sig\<in>set sigs. \<not> hostUses WEB_VITALS sig \<Longrightarrow> vitalsBudget (run sigs s) \<le> vitalsBudget s"
proof (induction sigs arbitrary: s)
  case Nil
  show ?case by (simp add: run_Nil)
next
  case (Cons sig sigs)
  then have "vitalsBudget (step sig s) \<le> vitalsBudget s" by (simp add: step_budget)
  moreover from Cons have "vitalsBudget (run sigs (step sig s)) \<le> vitalsBudget (step sig s)"
    by simp
  ultimately show ?case by (simp add: run_Cons)
qed

section \<open>Initialization and the loaded page\<close>

subsection \<open>Initialization\<close>

lemma initializeLynq_frame [simp]:
  "session (initializeLynq t s) = session s"
  "isDestroyed (initializeLynq t s) = isDestroyed s"
  "finalMetricsSent (initializeLynq t s) = finalMetricsSent s"
  "localStorage (initializeLynq t s) = localStorage s"
proof -
  let ?f = "\<lambda>s data. trackEvent t (HostData data) s"
  have "session (foldl ?f s q) = session s \<and> isDestroyed (foldl ?f s q) = isDestroyed s \<and>
        finalMetricsSent (foldl ?f s q) = finalMetricsSent s \<and>
        localStorage (foldl ?f s q) = localStorage s" for q
    by (induction q arbitrary: s) simp_all
  then show "session (initializeLynq t s) = session s"
    "isDestroyed (initializeLynq t s) = isDestroyed s"
    "finalMetricsSent (initializeLynq t s) = finalMetricsSent s"
    "localStorage (initializeLynq t s) = localStorage s"
    by (simp_all add: initializeLynq_def Let_def)
qed

lemma waiting_initializeLynq:
  "waitingWithoutSession s \<Longrightarrow> waitingWithoutSession (initializeLynq t s)"
proof -
  assume w: "waitingWithoutSession s"
  let ?f = "\<lambda>s data. trackEvent t (HostData data) s"
  have "waitingWithoutSession s \<Longrightarrow> waitingWithoutSession (foldl ?f s q)" for q s
    by (induction q arbitrary: s) (simp_all add: waiting_trackEvent)
  from this [OF w] show ?thesis
    by (simp add: initializeLynq_def Let_def waitingWithoutSession_def sessionReady_def)
qed

lemma budget_initializeLynq:
  "t \<noteq> WEB_VITALS \<Longrightarrow> vitalsBudget (initializeLynq t s) = vitalsBudget s"
proof -
  assume t: "t \<noteq> WEB_VITALS"
  let ?f = "\<lambda>s data. trackEvent t (HostData data) s"
  have "vitalsBudget (foldl ?f s q) = vitalsBudget s" for q s
    using t by (induction q arbitrary: s) (simp_all add: budget_trackEvent)
  then show ?thesis
    by (simp add: initializeLynq_def Let_def vitalsBudget_def eventLoad_def)
qed

lemma nextFault_faultAt: "nextFault s = faultAt 0 s"
  by (cases "storageFaults s") (simp_all add: nextFault_def faultAt_def)

lemma faultAt_after_tl:
  "storageFaults s' = tl (storageFaults s) \<Longrightarrow> faultAt i s' = faultAt (Suc i) s"
  by (cases "storageFaults s") (simp_all add: faultAt_def)

lemma faultAt_tl [simp]:
  "faultAt i (s\<lparr>storageFaults := tl (storageFaults s)\<rparr>) = faultAt (Suc i) s"
  by (simp add: faultAt_after_tl)

lemma faultAt_after_write [simp]:
  "faultAt i (s\<lparr>drawn := k, localStorage := m, storageFaults := tl (storageFaults s)\<rparr>)
     = faultAt (Suc i) s"
  by (simp add: faultAt_after_tl)

lemma faultAt_tl_tl [simp]:
  "faultAt i (s\<lparr>storageFaults := tl (tl (storageFaults s))\<rparr>) = faultAt (Suc (Suc i)) s"
  using faultAt_tl [of i "s\<lparr>storageFaults := tl (storageFaults s)\<rparr>"] by simp

lemma faultAt_drawn [simp]: "faultAt i (s\<lparr>drawn := k\<rparr>) = faultAt i s"
  by (simp add: faultAt_def)

text \<open>The three ways \<^verbatim>\<open>startNewSession\<close> can end: the first write throws, the second
  write throws, or both succeed.\<close>

lemma startNewSession_fault0:
  "faultAt 0 s \<Longrightarrow>
   startNewSession s = s\<lparr>drawn := Suc (drawn s), storageFaults := tl (storageFaults s)\<rparr>"
  by (simp add: startNewSession_def generateSessionId_def randomUUID_def setItem_def Let_def
      nextFault_faultAt)

lemma startNewSession_fault1:
  "\<not> faultAt 0 s \<Longrightarrow> faultAt 1 s \<Longrightarrow>
   startNewSession s =
     s\<lparr>drawn := Suc (drawn s),
       localStorage := (localStorage s)(SESSION_ID \<mapsto> entropy s (drawn s)),
       storageFaults := tl (tl (storageFaults s))\<rparr>"
  by (simp add: startNewSession_def generateSessionId_def randomUUID_def setItem_def Let_def
      nextFault_faultAt)

lemma startNewSession_ok:
  "\<not> faultAt 0 s \<Longrightarrow> \<not> faultAt 1 s \<Longrightarrow>
   startNewSession s =
     (initializeLynq INITIAL_CUSTOM_EVENT
        (trackEvent SESSION_START NoData
           (s\<lparr>drawn := Suc (drawn s),
              localStorage := (localStorage s)
                (SESSION_ID \<mapsto> entropy s (drawn s),
                 EXPIRATION \<mapsto> numberToString (Date_now s + SESSION_DURATION)),
              storageFaults := tl (tl (storageFaults s)),
              session := Some \<lparr> sessionId = entropy s (drawn s),
                                 expirationTime = Num (Date_now s + SESSION_DURATION),
                                 sessionStartTime = Date_now s \<rparr>\<rparr>)))
     \<lparr>sessionInterval := True\<rparr>"
  by (simp add: startNewSession_def generateSessionId_def randomUUID_def setItem_def Let_def
      nextFault_faultAt)

text \<open>The ways \<^verbatim>\<open>initializeSession\<close> can go: a read throws, or both reads succeed and one
  of the two branches runs.\<close>

lemma initializeSession_fault0:
  "faultAt 0 s \<Longrightarrow> initializeSession s = s\<lparr>storageFaults := tl (storageFaults s)\<rparr>"
  by (simp add: initializeSession_def getItem_def nextFault_faultAt)

lemma initializeSession_fault1:
  "\<not> faultAt 0 s \<Longrightarrow> faultAt 1 s \<Longrightarrow>
   initializeSession s = s\<lparr>storageFaults := tl (tl (storageFaults s))\<rparr>"
  by (simp add: initializeSession_def getItem_def nextFault_faultAt)

lemma initializeSession_new:
  "\<not> faultAt 0 s \<Longrightarrow> \<not> faultAt 1 s \<Longrightarrow>
   absent (localStorage s SESSION_ID) \<or> absent (localStorage s EXPIRATION) \<Longrightarrow>
   initializeSession s = startNewSession (s\<lparr>storageFaults := tl (tl (storageFaults s))\<rparr>)"
  by (auto simp add: initializeSession_def getItem_def nextFault_faultAt absent_def
      split: option.splits)

lemma initializeSession_present:
  "\<not> faultAt 0 s \<Longrightarrow> \<not> faultAt 1 s \<Longrightarrow>
   localStorage s SESSION_ID = Some sid \<Longrightarrow> sid \<noteq> [] \<Longrightarrow>
   localStorage s EXPIRATION = Some e \<Longrightarrow> e \<noteq> [] \<Longrightarrow>
   initializeSession s =
     (if ge_num (Date_now s) (parseInt e)
      then startNewSession (s\<lparr>storageFaults := tl (tl (storageFaults s))\<rparr>)
      else resumeSession sid e (s\<lparr>storageFaults := tl (tl (storageFaults s))\<rparr>))"
  by (simp add: initializeSession_def getItem_def nextFault_faultAt isSessionExpired_def)

lemma initializeSession_cases:
  obtains (readFault) k where "initializeSession s = s\<lparr>storageFaults := k\<rparr>"
  | (new) k where "initializeSession s = startNewSession (s\<lparr>storageFaults := k\<rparr>)"
  | (resumed) k sid e where "initializeSession s = resumeSession sid e (s\<lparr>storageFaults := k\<rparr>)"
proof (cases "faultAt 0 s")
  case True
  from initializeSession_fault0 [OF this] show ?thesis by (rule readFault)
next
  case f0: False
  show ?thesis
  proof (cases "faultAt 1 s")
    case True
    from initializeSession_fault1 [OF f0 this] show ?thesis by (rule readFault)
  next
    case f1: False
    show ?thesis
    proof (cases "absent (localStorage s SESSION_ID) \<or> absent (localStorage s EXPIRATION)")
      case True
      from initializeSession_new [OF f0 f1 this] show ?thesis by (rule new)
    next
      case False
      then obtain sid e where p: "localStorage s SESSION_ID = Some sid" "sid \<noteq> []"
        "localStorage s EXPIRATION = Some e" "e \<noteq> []"
        by (auto simp add: absent_def split: option.splits)
      show ?thesis
      proof (cases "ge_num (Date_now s) (parseInt e)")
        case True
        with initializeSession_present [OF f0 f1 p] show ?thesis by (simp add: new)
      next
        case False
        with initializeSession_present [OF f0 f1 p] show ?thesis by (simp add: resumed)
      qed
    qed
  qed
qed

lemma waiting_startNewSession:
  assumes "suspended s = []"
  shows "waitingWithoutSession (startNewSession s)"
proof (cases "faultAt 0 s")
  case True
  with assms show ?thesis by (simp add: startNewSession_fault0 waitingWithoutSession_def)
next
  case f0: False
  show ?thesis
  proof (cases "faultAt 1 s")
    case True
    with f0 assms show ?thesis by (simp add: startNewSession_fault1 waitingWithoutSession_def)
  next
    case False
    let ?s4 = "s\<lparr>drawn := Suc (drawn s),
              localStorage := (localStorage s)
                (SESSION_ID \<mapsto> entropy s (drawn s),
                 EXPIRATION \<mapsto> numberToString (Date_now s + SESSION_DURATION)),
              storageFaults := tl (tl (storageFaults s)),
              session := Some \<lparr> sessionId = entropy s (drawn s),
                                 expirationTime = Num (Date_now s + SESSION_DURATION),
                                 sessionStartTime = Date_now s \<rparr>\<rparr>"
    from assms have "waitingWithoutSession ?s4" by (simp add: waitingWithoutSession_def)
    then have "waitingWithoutSession
                 (initializeLynq INITIAL_CUSTOM_EVENT (trackEvent SESSION_START NoData ?s4))"
      by (intro waiting_initializeLynq waiting_trackEvent)
    with f0 False show ?thesis by (simp add: startNewSession_ok)
  qed
qed

lemma waiting_resumeSession:
  assumes "suspended s = []"
  shows "waitingWithoutSession (resumeSession sid e s)"
proof -
  let ?s1 = "s\<lparr>session := Some \<lparr> sessionId = sid, expirationTime = parseInt e,
                                  sessionStartTime = Date_now s \<rparr>\<rparr>"
  from assms have "waitingWithoutSession ?s1" by (simp add: waitingWithoutSession_def)
  then have "waitingWithoutSession (initializeLynq CUSTOM_EVENT (trackPageView ?s1))"
    by (intro waiting_initializeLynq waiting_trackPageView)
  then show ?thesis by (simp add: resumeSession_def Let_def)
qed

lemma waiting_initializeSession:
  assumes "suspended s = []"
  shows "waitingWithoutSession (initializeSession s)"
proof (cases s rule: initializeSession_cases)
  case (readFault k)
  with assms show ?thesis by (simp add: waitingWithoutSession_def)
next
  case (new k)
  with assms waiting_startNewSession [of "s\<lparr>storageFaults := k\<rparr>"] show ?thesis by simp
next
  case (resumed k sid e)
  with assms waiting_resumeSession [of "s\<lparr>storageFaults := k\<rparr>"] show ?thesis by simp
qed

lemma budget_storage [simp]:
  "vitalsBudget (s\<lparr>storageFaults := k\<rparr>) = vitalsBudget s"
  "vitalsBudget (s\<lparr>localStorage := m\<rparr>) = vitalsBudget s"
  "vitalsBudget (s\<lparr>session := x\<rparr>) = vitalsBudget s"
  by (simp_all add: vitalsBudget_def eventLoad_def)

lemma budget_startNewSession: "vitalsBudget (startNewSession s) = vitalsBudget s"
proof (cases "faultAt 0 s")
  case True
  then show ?thesis by (simp add: startNewSession_fault0)
next
  case f0: False
  show ?thesis
  proof (cases "faultAt 1 s")
    case True
    with f0 show ?thesis by (simp add: startNewSession_fault1)
  next
    case False
    with f0 show ?thesis
      by (simp add: startNewSession_ok budget_initializeLynq budget_trackEvent
          INITIAL_CUSTOM_EVENT_def SESSION_START_def WEB_VITALS_def)
  qed
qed

lemma budget_resumeSession: "vitalsBudget (resumeSession sid e s) = vitalsBudget s"
  by (simp add: resumeSession_def Let_def budget_initializeLynq budget_trackPageView
      CUSTOM_EVENT_def WEB_VITALS_def)

lemma finalMetricsSent_startNewSession [simp]:
  "finalMetricsSent (startNewSession s) = finalMetricsSent s"
proof (cases "faultAt 0 s")
  case True
  then show ?thesis by (simp add: startNewSession_fault0)
next
  case f0: False
  show ?thesis
  proof (cases "faultAt 1 s")
    case True
    with f0 show ?thesis by (simp add: startNewSession_fault1)
  next
    case False
    with f0 show ?thesis by (simp add: startNewSession_ok)
  qed
qed

lemma finalMetricsSent_resumeSession [simp]:
  "finalMetricsSent (resumeSession sid e s) = finalMetricsSent s"
  by (simp add: resumeSession_def Let_def)

lemma finalMetricsSent_initializeSession:
  "finalMetricsSent (initializeSession s) = finalMetricsSent s"
  by (cases s rule: initializeSession_cases) simp_all

lemma budget_initializeSession: "vitalsBudget (initializeSession s) = vitalsBudget s"
  by (cases s rule: initializeSession_cases)
    (simp_all add: budget_startNewSession budget_resumeSession)

subsection \<open>The loaded page\<close>

lemma getOrCreateClientId_frame:
  "getOrCreateClientId s = (c, s') \<Longrightarrow>
   beacons s' = beacons s \<and> suspended s' = suspended s \<and>
   finalMetricsSent s' = finalMetricsSent s"
  by (auto simp add: getOrCreateClientId_def getItem_def setItem_def randomUUID_def
      split: if_splits option.splits prod.splits sum.splits)

lemma newPerformanceTracker_frame [simp]:
  "beacons (newPerformanceTracker s) = beacons s"
  "suspended (newPerformanceTracker s) = suspended s"
  "session (newPerformanceTracker s) = session s"
  "isDestroyed (newPerformanceTracker s) = isDestroyed s"
  "finalMetricsSent (newPerformanceTracker s) = False"
  by (simp_all add: newPerformanceTracker_def initializeTracking_def Let_def)

lemma untouched_setupEventListeners: "untouched s (setupEventListeners s)"
  by (simp add: setupEventListeners_def randomUUID_def untouched_def)

lemmas setupEventListeners_frame [simp] = untouched_fields [OF untouched_setupEventListeners]

lemma waiting_construct: "waitingWithoutSession (construct env)"
proof -
  obtain c s1 where g: "getOrCreateClientId env = (c, s1)" by (cases "getOrCreateClientId env")
  let ?s2 = "s1\<lparr>clientId := c, initialPathname := location_pathname s1,
                    session := None, mutationObserver := False, isDestroyed := False,
                    sessionInterval := False, hashchangeListener := False, pageLoadId := None,
                    suspended := []\<rparr>"
  have "waitingWithoutSession (initializeSession ?s2)"
    by (rule waiting_initializeSession) simp
  then have "waitingWithoutSession (newPerformanceTracker (initializeSession ?s2))"
    by (simp add: waitingWithoutSession_def sessionReady_def)
  with g show ?thesis by (simp add: construct_def Let_def)
qed

lemma budget_construct: "vitalsBudget (construct env) = countEvent WEB_VITALS (beacons env) + 1"
proof -
  obtain c s1 where g: "getOrCreateClientId env = (c, s1)" by (cases "getOrCreateClientId env")
  let ?s2 = "s1\<lparr>clientId := c, initialPathname := location_pathname s1,
                    session := None, mutationObserver := False, isDestroyed := False,
                    sessionInterval := False, hashchangeListener := False, pageLoadId := None,
                    suspended := []\<rparr>"
  let ?s3 = "initializeSession ?s2"
  from getOrCreateClientId_frame [OF g]
  have "eventLoad WEB_VITALS ?s2 = countEvent WEB_VITALS (beacons env)"
    by (simp add: eventLoad_def)
  moreover have "vitalsBudget ?s3 = vitalsBudget ?s2" by (rule budget_initializeSession)
  moreover have "finalMetricsSent ?s3 = finalMetricsSent ?s2"
    by (rule finalMetricsSent_initializeSession)
  ultimately have "eventLoad WEB_VITALS ?s3 = countEvent WEB_VITALS (beacons env)"
    by (simp add: vitalsBudget_def)
  then have "vitalsBudget (newPerformanceTracker ?s3) = countEvent WEB_VITALS (beacons env) + 1"
    by (simp add: vitalsBudget_def eventLoad_def)
  with g show ?thesis by (simp add: construct_def Let_def)
qed

lemma reachable_waiting: "reachable s \<Longrightarrow> waitingWithoutSession s"
  by (induction rule: reachable.induct) (simp_all add: waiting_construct step_waiting)

subsection \<open>What initialization sends\<close>

lemma prefix_beacons_trackEvent: "prefix (beacons s) (beacons (trackEvent n d s))"
  by (simp add: trackEvent_def composeAndSend_def sendAnalyticsRequest_def split: option.splits)

lemma events_trackEvent_ready:
  "\<not> isDestroyed s \<Longrightarrow> sessionReady s \<Longrightarrow>
   map p_event (beacons (trackEvent n d s)) = map p_event (beacons s) @ [n]"
  by (simp add: trackEvent_def composeAndSend_def sendAnalyticsRequest_def sessionReady_def
      composePayload_def split: option.splits)

lemma foldl_trackEvent_ready:
  "\<not> isDestroyed s \<Longrightarrow> sessionReady s \<Longrightarrow>
   prefix (beacons s) (beacons (foldl (\<lambda>s data. trackEvent t (HostData data) s) s q)) \<and>
   map p_event (beacons (foldl (\<lambda>s data. trackEvent t (HostData data) s) s q)) =
     map p_event (beacons s) @ replicate (length q) t"
proof (induction q arbitrary: s)
  case Nil
  show ?case by simp
next
  case (Cons d q)
  let ?s1 = "trackEvent t (HostData d) s"
  from Cons.prems have d1: "\<not> isDestroyed ?s1" and r1: "sessionReady ?s1"
    by (simp_all add: sessionReady_def)
  from Cons.IH [OF d1 r1] events_trackEvent_ready [OF Cons.prems]
    prefix_beacons_trackEvent [of s t "HostData d"]
  show ?case by (auto simp add: replicate_app_Cons_same intro: prefix_order.trans)
qed

lemma initializeLynq_ready:
  "\<not> isDestroyed s \<Longrightarrow> sessionReady s \<Longrightarrow>
   prefix (beacons s) (beacons (initializeLynq t s)) \<and>
   map p_event (beacons (initializeLynq t s)) =
     map p_event (beacons s) @ replicate (length (queuedEvents s)) t"
  using foldl_trackEvent_ready [of s t "queuedEvents s"]
  by (simp add: initializeLynq_def Let_def queuedEvents_def)

lemma emittedEvents_eq:
  assumes "prefix (beacons s) (beacons s')"
    and "map p_event (beacons s') = map p_event (beacons s) @ names"
  shows "emittedEvents s s' = names"
proof -
  from assms(1) obtain zs where zs: "beacons s' = beacons s @ zs" by (auto elim: prefixE)
  with assms(2) have "map p_event zs = names" by simp
  with zs show ?thesis by (simp add: emittedEvents_def)
qed

lemma parseInt_Nil: "parseInt [] = NaN"
  by (simp add: parseInt_def)

lemma initializeSession_stale:
  "\<not> faultAt 0 s \<Longrightarrow> \<not> faultAt 1 s \<Longrightarrow> persistedSessionStale s \<Longrightarrow>
   initializeSession s = startNewSession (s\<lparr>storageFaults := tl (tl (storageFaults s))\<rparr>)"
  by (auto simp add: initializeSession_def getItem_def nextFault_faultAt persistedSessionStale_def
      isSessionExpired_def split: option.splits)

lemma initializeSession_fresh:
  "\<not> faultAt 0 s \<Longrightarrow> \<not> faultAt 1 s \<Longrightarrow> \<not> persistedSessionStale s \<Longrightarrow>
   localStorage s SESSION_ID = Some sid \<Longrightarrow> localStorage s EXPIRATION = Some e \<Longrightarrow>
   initializeSession s = resumeSession sid e (s\<lparr>storageFaults := tl (tl (storageFaults s))\<rparr>)"
  by (auto simp add: initializeSession_def getItem_def nextFault_faultAt persistedSessionStale_def
      isSessionExpired_def split: option.splits)

text \<open>The new-session branch when both writes succeed.\<close>

lemma startNewSession_written:
  assumes "\<not> faultAt 0 s" and "\<not> faultAt 1 s"
  shows "session (startNewSession s) =
           Some \<lparr> sessionId = entropy s (drawn s),
                  expirationTime = Num (Date_now s + SESSION_DURATION),
                  sessionStartTime = Date_now s \<rparr>"
    and "localStorage (startNewSession s) =
           (localStorage s)(SESSION_ID \<mapsto> entropy s (drawn s),
                            EXPIRATION \<mapsto> numberToString (Date_now s + SESSION_DURATION))"
  using assms by (simp_all add: startNewSession_ok)

lemma startNewSession_emits:
  assumes "\<not> faultAt 0 s" and "\<not> faultAt 1 s" and "\<not> isDestroyed s"
    and "entropy s (drawn s) \<noteq> []"
  shows "prefix (beacons s) (beacons (startNewSession s))"
    and "map p_event (beacons (startNewSession s)) =
           map p_event (beacons s) @ SESSION_START # replicate (length (queuedEvents s)) INITIAL_CUSTOM_EVENT"
proof -
  let ?s4 = "s\<lparr>drawn := Suc (drawn s),
              localStorage := (localStorage s)
                (SESSION_ID \<mapsto> entropy s (drawn s),
                 EXPIRATION \<mapsto> numberToString (Date_now s + SESSION_DURATION)),
              storageFaults := tl (tl (storageFaults s)),
              session := Some \<lparr> sessionId = entropy s (drawn s),
                                 expirationTime = Num (Date_now s + SESSION_DURATION),
                                 sessionStartTime = Date_now s \<rparr>\<rparr>"
  let ?s5 = "trackEvent SESSION_START NoData ?s4"
  from assms have d4: "\<not> isDestroyed ?s4" and r4: "sessionReady ?s4"
    by (simp_all add: sessionReady_def)
  then have d5: "\<not> isDestroyed ?s5" and r5: "sessionReady ?s5"
    by (simp_all add: sessionReady_def)
  have q5: "queuedEvents ?s5 = queuedEvents s"
    by (simp add: queuedEvents_def trackEvent_def composeAndSend_def sendAnalyticsRequest_def
        split: option.splits)
  from events_trackEvent_ready [OF d4 r4, of SESSION_START NoData]
  have e5: "map p_event (beacons ?s5) = map p_event (beacons s) @ [SESSION_START]" by simp
  from prefix_beacons_trackEvent [of ?s4 SESSION_START NoData]
  have p5: "prefix (beacons s) (beacons ?s5)" by simp
  from initializeLynq_ready [OF d5 r5, of INITIAL_CUSTOM_EVENT] p5
  have "prefix (beacons s) (beacons (initializeLynq INITIAL_CUSTOM_EVENT ?s5))"
    by (auto intro: prefix_order.trans)
  with assms show "prefix (beacons s) (beacons (startNewSession s))"
    by (simp add: startNewSession_ok)
  from initializeLynq_ready [OF d5 r5, of INITIAL_CUSTOM_EVENT] e5 q5
  have "map p_event (beacons (initializeLynq INITIAL_CUSTOM_EVENT ?s5)) =
          map p_event (beacons s) @ SESSION_START # replicate (length (queuedEvents s)) INITIAL_CUSTOM_EVENT"
    by simp
  with assms show "map p_event (beacons (startNewSession s)) =
           map p_event (beacons s) @ SESSION_START # replicate (length (queuedEvents s)) INITIAL_CUSTOM_EVENT"
    by (simp add: startNewSession_ok)
qed

text \<open>The resumed branch.\<close>

lemma resumeSession_session:
  "session (resumeSession sid e s) =
     Some \<lparr> sessionId = sid, expirationTime = parseInt e, sessionStartTime = Date_now s \<rparr>"
  "localStorage (resumeSession sid e s) = localStorage s"
  by (simp_all add: resumeSession_def Let_def trackPageView_def)

lemma resumeSession_emits:
  assumes "\<not> isDestroyed s" and "sid \<noteq> []"
  shows "prefix (beacons s) (beacons (resumeSession sid e s))"
    and "map p_event (beacons (resumeSession sid e s)) =
           map p_event (beacons s) @ PAGE_VIEW # replicate (length (queuedEvents s)) CUSTOM_EVENT"
proof -
  let ?s1 = "s\<lparr>session := Some \<lparr> sessionId = sid, expirationTime = parseInt e,
                                  sessionStartTime = Date_now s \<rparr>\<rparr>"
  let ?s2 = "trackPageView ?s1"
  from assms have d1: "\<not> isDestroyed ?s1" and r1: "sessionReady ?s1"
    by (simp_all add: sessionReady_def)
  then have d2: "\<not> isDestroyed ?s2" and r2: "sessionReady ?s2"
    by (simp_all add: sessionReady_def)
  have q2: "queuedEvents ?s2 = queuedEvents s"
    by (simp add: queuedEvents_def trackPageView_def trackEvent_def composeAndSend_def
        sendAnalyticsRequest_def split: option.splits)
  from d1 have b2: "beacons ?s2 = beacons (trackEvent PAGE_VIEW NoData ?s1)"
    by (simp add: trackPageView_def)
  from events_trackEvent_ready [OF d1 r1, of PAGE_VIEW NoData] b2
  have e2: "map p_event (beacons ?s2) = map p_event (beacons s) @ [PAGE_VIEW]" by simp
  from prefix_beacons_trackEvent [of ?s1 PAGE_VIEW NoData] b2
  have p2: "prefix (beacons s) (beacons ?s2)" by simp
  from initializeLynq_ready [OF d2 r2, of CUSTOM_EVENT] p2
  have "prefix (beacons s) (beacons (initializeLynq CUSTOM_EVENT ?s2))"
    by (auto intro: prefix_order.trans)
  then show "prefix (beacons s) (beacons (resumeSession sid e s))"
    by (simp add: resumeSession_def Let_def)
  from initializeLynq_ready [OF d2 r2, of CUSTOM_EVENT] e2 q2
  show "map p_event (beacons (resumeSession sid e s)) =
           map p_event (beacons s) @ PAGE_VIEW # replicate (length (queuedEvents s)) CUSTOM_EVENT"
    by (simp add: resumeSession_def Let_def)
qed

section \<open>The example pages\<close>

lemmas parse_defs = parseInt_def isWhiteSpace_def isRadixDigit_def digitValue_def digitOf_def

lemmas name_defs =
  SESSION_ID_def EXPIRATION_def CLIENT_ID_def SESSION_DURATION_def SESSION_START_def
  PAGE_VIEW_def CUSTOM_EVENT_def INITIAL_CUSTOM_EVENT_def WEB_VITALS_def SESSION_END_def

lemmas model_defs =
  construct_def getOrCreateClientId_def getItem_def setItem_def randomUUID_def nextFault_def
  initializeSession_def startNewSession_def resumeSession_def generateSessionId_def
  isSessionExpired_def initializeLynq_def trackEvent_def composeAndSend_def
  sendAnalyticsRequest_def composePayload_def classifyReferrer_def startsWith_def
  sessionReady_def trackPageView_def newPerformanceTracker_def initializeTracking_def
  collectNavigationMetrics_def setupEventListeners_def zeroMetrics_def
  numberToString_def digitsOf.simps

lemma toNumber_exact:
  assumes "\<bar>i\<bar> \<le> 2 ^ 53"
  shows "toNumber i = Num i"
proof -
  from assms have "nat \<bar>i\<bar> \<le> 2 ^ 53" by (simp add: nat_le_iff)
  then show ?thesis unfolding toNumber_def Let_def by (simp only: if_True)
qed

lemma parseInt_5000: "parseInt ''5000'' = Num 5000"
  by (simp add: parse_defs toNumber_exact)

lemma parseInt_500: "parseInt ''500'' = Num 500"
  by (simp add: parse_defs toNumber_exact)

text \<open>
  A no-break space before the digits is skipped, text after them is ignored, and an
  integer beyond \<open>2^53\<close> is rounded to the nearest double.
\<close>

lemma parseInt_nbsp: "parseInt [CHR 0xA0, CHR ''5'', CHR ''0'', CHR ''0''] = Num 500"
  by (simp add: parse_defs toNumber_exact)

lemma parseInt_space: "parseInt [CHR 0xA0] = NaN"
  by (simp add: parse_defs)

lemma parseInt_prefix:
  "parseInt '' -0x1F rest'' = Num (- 31)" "parseInt ''+12px'' = Num 12"
  "parseInt ''-'' = NaN" "parseInt ''0x'' = NaN" "parseInt ''1e3'' = Num 1"
  by (simp_all add: parse_defs toNumber_exact)

lemma bitLength_54: "bitLength 9007199254740993 = 54"
  by (simp add: bitLength.simps)

lemma parseInt_rounds: "parseInt ''9007199254740993'' = Num 9007199254740992"
  by (simp add: parse_defs toNumber_def bitLength_54 Let_def)

lemma parseInt_abc: "parseInt ''abc'' = NaN"
  by (simp add: parse_defs)

lemma construct_examplePage:
  "visibilityState (construct examplePage) = Visible"
  "\<not> isDestroyed (construct examplePage)"
  "storageFaults (construct examplePage) = []"
  "Date_now (construct examplePage) = 1000"
  "session (construct examplePage) =
     Some \<lparr> sessionId = ''token1'', expirationTime = Num 601000, sessionStartTime = 1000 \<rparr>"
  "localStorage (construct examplePage) EXPIRATION = Some ''601000''"
  "map p_event (beacons (construct examplePage)) = [''session-start'']"
  "\<not> finalMetricsSent (construct examplePage)"
  by (simp_all add: model_defs name_defs examplePage_def Let_def)

section \<open>Session initialization\<close>

text \<open>
  Claim C2, as amended. When no storage call throws: if the persisted session id or the
  persisted expiration is absent (missing or empty), or the expiration parses to a time
  that is not in the future, initialization generates a session id (non-empty, as the
  generated tokens are), sets the expiration to now plus the session duration, persists
  both, and emits \<^verbatim>\<open>session-start\<close>, followed only by the queued events as
  \<^verbatim>\<open>initial-custom-event\<close>: no \<^verbatim>\<open>page-view\<close>. If a persisted session id exists and the
  expiration parses to a time in the future, that session id is reused, the store is
  unchanged, and one \<^verbatim>\<open>page-view\<close> is emitted, followed only by the queued events as
  \<^verbatim>\<open>custom-event\<close>: no \<^verbatim>\<open>session-start\<close>.
\<close>

theorem initialization_new_or_resumed:
  assumes "storageFaults s = []" and "\<not> isDestroyed s"
  shows
    "((absent (localStorage s SESSION_ID) \<or> absent (localStorage s EXPIRATION) \<or>
       (\<exists>e t. localStorage s EXPIRATION = Some e \<and> parseInt e = Num t \<and> t \<le> Date_now s)) \<and>
      entropy s (drawn s) \<noteq> [] \<longrightarrow>
        session (initializeSession s) =
          Some \<lparr> sessionId = entropy s (drawn s),
                 expirationTime = Num (Date_now s + SESSION_DURATION),
                 sessionStartTime = Date_now s \<rparr> \<and>
        localStorage (initializeSession s) =
          (localStorage s)(SESSION_ID \<mapsto> entropy s (drawn s),
                           EXPIRATION \<mapsto> numberToString (Date_now s + SESSION_DURATION)) \<and>
        prefix (beacons s) (beacons (initializeSession s)) \<and>
        emittedEvents s (initializeSession s) =
          SESSION_START # replicate (length (queuedEvents s)) INITIAL_CUSTOM_EVENT) \<and>
     (localStorage s SESSION_ID = Some sid \<and> sid \<noteq> [] \<and>
      localStorage s EXPIRATION = Some e' \<and> parseInt e' = Num t' \<and> Date_now s < t' \<longrightarrow>
        session (initializeSession s) =
          Some \<lparr> sessionId = sid, expirationTime = Num t', sessionStartTime = Date_now s \<rparr> \<and>
        localStorage (initializeSession s) = localStorage s \<and>
        prefix (beacons s) (beacons (initializeSession s)) \<and>
        emittedEvents s (initializeSession s) =
          PAGE_VIEW # replicate (length (queuedEvents s)) CUSTOM_EVENT)"
proof (intro conjI impI)
  let ?s2 = "s\<lparr>storageFaults := tl (tl (storageFaults s))\<rparr>"
  from assms(1) have nf: "\<not> faultAt 0 s" "\<not> faultAt 1 s" "\<not> faultAt 0 ?s2" "\<not> faultAt 1 ?s2"
    by (simp_all add: faultAt_def)
  from assms(2) have d2: "\<not> isDestroyed ?s2" by simp
  have q2: "queuedEvents ?s2 = queuedEvents s" by (simp add: queuedEvents_def)
  {
    assume a: "(absent (localStorage s SESSION_ID) \<or> absent (localStorage s EXPIRATION) \<or>
       (\<exists>e t. localStorage s EXPIRATION = Some e \<and> parseInt e = Num t \<and> t \<le> Date_now s)) \<and>
      entropy s (drawn s) \<noteq> []"
    then have "persistedSessionStale s"
      by (auto simp add: persistedSessionStale_def absent_def split: option.splits)
    from initializeSession_stale [OF nf(1,2) this]
    have eq: "initializeSession s = startNewSession ?s2" .
    from a have id: "entropy ?s2 (drawn ?s2) \<noteq> []" by simp
    show "session (initializeSession s) =
          Some \<lparr> sessionId = entropy s (drawn s),
                 expirationTime = Num (Date_now s + SESSION_DURATION),
                 sessionStartTime = Date_now s \<rparr>"
      using startNewSession_written(1) [OF nf(3,4)] by (simp add: eq)
    show "localStorage (initializeSession s) =
          (localStorage s)(SESSION_ID \<mapsto> entropy s (drawn s),
                           EXPIRATION \<mapsto> numberToString (Date_now s + SESSION_DURATION))"
      using startNewSession_written(2) [OF nf(3,4)] by (simp add: eq)
    from startNewSession_emits(1) [OF nf(3,4) d2 id]
    show p: "prefix (beacons s) (beacons (initializeSession s))" by (simp add: eq)
    from startNewSession_emits(2) [OF nf(3,4) d2 id] q2
    have "map p_event (beacons (initializeSession s)) =
            map p_event (beacons s) @
            SESSION_START # replicate (length (queuedEvents s)) INITIAL_CUSTOM_EVENT"
      by (simp add: eq)
    from emittedEvents_eq [OF p this]
    show "emittedEvents s (initializeSession s) =
          SESSION_START # replicate (length (queuedEvents s)) INITIAL_CUSTOM_EVENT" .
  }
  {
    assume b: "localStorage s SESSION_ID = Some sid \<and> sid \<noteq> [] \<and>
      localStorage s EXPIRATION = Some e' \<and> parseInt e' = Num t' \<and> Date_now s < t'"
    then have ne: "e' \<noteq> []" by (auto simp add: parseInt_Nil)
    with b have "\<not> persistedSessionStale s" by (simp add: persistedSessionStale_def)
    from initializeSession_fresh [OF nf(1,2) this] b
    have eq: "initializeSession s = resumeSession sid e' ?s2" by simp
    from b have sid: "sid \<noteq> []" by simp
    show "session (initializeSession s) =
          Some \<lparr> sessionId = sid, expirationTime = Num t', sessionStartTime = Date_now s \<rparr>"
      using b by (simp add: eq resumeSession_session)
    show "localStorage (initializeSession s) = localStorage s"
      by (simp add: eq resumeSession_session)
    from resumeSession_emits(1) [OF d2 sid, of e']
    show p: "prefix (beacons s) (beacons (initializeSession s))" by (simp add: eq)
    from resumeSession_emits(2) [OF d2 sid, of e'] q2
    have "map p_event (beacons (initializeSession s)) =
            map p_event (beacons s) @ PAGE_VIEW # replicate (length (queuedEvents s)) CUSTOM_EVENT"
      by (simp add: eq)
    from emittedEvents_eq [OF p this]
    show "emittedEvents s (initializeSession s) =
          PAGE_VIEW # replicate (length (queuedEvents s)) CUSTOM_EVENT" .
  }
qed

text \<open>
  A first visit starts a session and emits \<^verbatim>\<open>session-start\<close>; a return before the
  persisted expiration 5000 resumes the session \<^verbatim>\<open>abc\<close> and emits \<^verbatim>\<open>page-view\<close>. A
  persisted expiration of a no-break space and 500 parses to 500, in the past, and a new
  session starts; a persisted expiration 9007199254740993 is held as the double
  9007199254740992.
\<close>

theorem initialization_witness:
  "session (initializeSession examplePage) =
     Some \<lparr> sessionId = ''token0'', expirationTime = Num 601000, sessionStartTime = 1000 \<rparr> \<and>
   localStorage (initializeSession examplePage) EXPIRATION = Some ''601000'' \<and>
   emittedEvents examplePage (initializeSession examplePage) = [''session-start''] \<and>
   session (initializeSession (returningPage ''5000'')) =
     Some \<lparr> sessionId = ''abc'', expirationTime = Num 5000, sessionStartTime = 1000 \<rparr> \<and>
   emittedEvents (returningPage ''5000'') (initializeSession (returningPage ''5000'')) =
     [''page-view''] \<and>
   session (initializeSession (returningPage [CHR 0xA0, CHR ''5'', CHR ''0'', CHR ''0''])) =
     Some \<lparr> sessionId = ''token0'', expirationTime = Num 601000, sessionStartTime = 1000 \<rparr> \<and>
   emittedEvents (returningPage [CHR 0xA0, CHR ''5'', CHR ''0'', CHR ''0''])
     (initializeSession (returningPage [CHR 0xA0, CHR ''5'', CHR ''0'', CHR ''0''])) =
     [''session-start''] \<and>
   session (initializeSession (returningPage ''9007199254740993'')) =
     Some \<lparr> sessionId = ''abc'', expirationTime = Num 9007199254740992,
            sessionStartTime = 1000 \<rparr>"
proof -
  let ?n = "returningPage [CHR 0xA0, CHR ''5'', CHR ''0'', CHR ''0'']"
  let ?r = "returningPage ''9007199254740993''"
  have a: "storageFaults examplePage = []" "\<not> isDestroyed examplePage"
    "absent (localStorage examplePage SESSION_ID)" "entropy examplePage (drawn examplePage) = ''token0''"
    "queuedEvents examplePage = []" "Date_now examplePage = 1000"
    by (simp_all add: examplePage_def absent_def queuedEvents_def digitsOf.simps)
  have b: "storageFaults (returningPage ''5000'') = []" "\<not> isDestroyed (returningPage ''5000'')"
    "localStorage (returningPage ''5000'') SESSION_ID = Some ''abc''"
    "localStorage (returningPage ''5000'') EXPIRATION = Some ''5000''"
    "queuedEvents (returningPage ''5000'') = []" "Date_now (returningPage ''5000'') = 1000"
    by (simp_all add: returningPage_def examplePage_def queuedEvents_def name_defs)
  have c: "storageFaults ?n = []" "\<not> isDestroyed ?n"
    "localStorage ?n EXPIRATION = Some [CHR 0xA0, CHR ''5'', CHR ''0'', CHR ''0'']"
    "entropy ?n (drawn ?n) = ''token0''" "queuedEvents ?n = []" "Date_now ?n = 1000"
    by (simp_all add: returningPage_def examplePage_def queuedEvents_def name_defs digitsOf.simps)
  have d: "storageFaults ?r = []" "\<not> isDestroyed ?r"
    "localStorage ?r SESSION_ID = Some ''abc''"
    "localStorage ?r EXPIRATION = Some ''9007199254740993''" "Date_now ?r = 1000"
    by (simp_all add: returningPage_def examplePage_def name_defs)
  from initialization_new_or_resumed [OF a(1,2)] a(3-6)
  have "session (initializeSession examplePage) =
     Some \<lparr> sessionId = ''token0'', expirationTime = Num 601000, sessionStartTime = 1000 \<rparr> \<and>
   localStorage (initializeSession examplePage) EXPIRATION = Some ''601000'' \<and>
   emittedEvents examplePage (initializeSession examplePage) = [''session-start'']"
    by (simp add: name_defs numberToString_def digitsOf.simps)
  moreover
  from initialization_new_or_resumed [OF b(1,2), of "''abc''" "''5000''" 5000] b(3-6) parseInt_5000
  have "session (initializeSession (returningPage ''5000'')) =
     Some \<lparr> sessionId = ''abc'', expirationTime = Num 5000, sessionStartTime = 1000 \<rparr> \<and>
   emittedEvents (returningPage ''5000'') (initializeSession (returningPage ''5000'')) =
     [''page-view'']"
    by (simp add: name_defs)
  moreover
  from initialization_new_or_resumed [OF c(1,2)] c(3-6) parseInt_nbsp
  have "session (initializeSession ?n) =
     Some \<lparr> sessionId = ''token0'', expirationTime = Num 601000, sessionStartTime = 1000 \<rparr> \<and>
   emittedEvents ?n (initializeSession ?n) = [''session-start'']"
    by (simp add: name_defs)
  moreover
  from initialization_new_or_resumed [OF d(1,2), of "''abc''" "''9007199254740993''"
      9007199254740992] d(3-5) parseInt_rounds
  have "session (initializeSession ?r) =
     Some \<lparr> sessionId = ''abc'', expirationTime = Num 9007199254740992,
            sessionStartTime = 1000 \<rparr>"
    by simp
  ultimately show ?thesis by simp
qed

text \<open>
  Claim C2 as stated fails when a storage write throws: no session id is persisted, no
  session is set and nothing is emitted, though no session id was persisted before.
\<close>

theorem initialization_write_failure_counterexample:
  "absent (localStorage (examplePage\<lparr>storageFaults := [False, False, True]\<rparr>) SESSION_ID) \<and>
   session (initializeSession (examplePage\<lparr>storageFaults := [False, False, True]\<rparr>)) = None \<and>
   localStorage (initializeSession (examplePage\<lparr>storageFaults := [False, False, True]\<rparr>)) SESSION_ID
     = None \<and>
   localStorage (initializeSession (examplePage\<lparr>storageFaults := [False, False, True]\<rparr>)) EXPIRATION
     = None \<and>
   beacons (initializeSession (examplePage\<lparr>storageFaults := [False, False, True]\<rparr>)) = []"
  by (simp add: model_defs name_defs examplePage_def absent_def Let_def)

subsection \<open>The persisted pair\<close>

lemma startNewSession_unwritten:
  assumes "faultAt 0 s"
  shows "localStorage (startNewSession s) = localStorage s"
    and "session (startNewSession s) = session s"
    and "beacons (startNewSession s) = beacons s"
  using assms by (simp_all add: startNewSession_fault0)

lemma startNewSession_half_written:
  assumes "\<not> faultAt 0 s" and "faultAt 1 s"
  shows "localStorage (startNewSession s) = (localStorage s)(SESSION_ID \<mapsto> entropy s (drawn s))"
    and "session (startNewSession s) = session s"
    and "beacons (startNewSession s) = beacons s"
  using assms by (simp_all add: startNewSession_fault1)

lemma initializeSession_store_kept:
  assumes "faultAt 0 s \<or> faultAt 1 s \<or> \<not> persistedSessionStale s"
  shows "localStorage (initializeSession s) = localStorage s"
proof (cases "faultAt 0 s")
  case True
  then show ?thesis by (simp add: initializeSession_fault0)
next
  case f0: False
  show ?thesis
  proof (cases "faultAt 1 s")
    case True
    with f0 show ?thesis by (simp add: initializeSession_fault1)
  next
    case f1: False
    with f0 assms have fresh: "\<not> persistedSessionStale s" by simp
    then obtain sid e where "localStorage s SESSION_ID = Some sid" "localStorage s EXPIRATION = Some e"
      by (auto simp add: persistedSessionStale_def split: option.splits)
    from initializeSession_fresh [OF f0 f1 fresh this] show ?thesis
      by (simp add: resumeSession_session)
  qed
qed

text \<open>
  Claim C9, as amended. Initialization reads the two entries and, for a stale persisted
  session, writes the session id and then the expiration, as two storage calls (the third
  and fourth of initialization). The store is unchanged when a read throws, when the
  session is resumed, or when the first write throws. When the first write succeeds and
  the second throws, the store holds the new session id beside the expiration entry it
  had before, no session is set and nothing is emitted. When both writes succeed, the
  store holds the new session id with its own expiration, and the session is set.
\<close>

theorem persisted_pair_by_write_outcome:
  "(faultAt 0 s \<or> faultAt 1 s \<or> \<not> persistedSessionStale s \<longrightarrow>
      localStorage (initializeSession s) = localStorage s) \<and>
   (\<not> faultAt 0 s \<and> \<not> faultAt 1 s \<and> persistedSessionStale s \<and> faultAt 2 s \<longrightarrow>
      localStorage (initializeSession s) = localStorage s \<and>
      session (initializeSession s) = session s \<and>
      beacons (initializeSession s) = beacons s) \<and>
   (\<not> faultAt 0 s \<and> \<not> faultAt 1 s \<and> persistedSessionStale s \<and> \<not> faultAt 2 s \<and> faultAt 3 s \<longrightarrow>
      localStorage (initializeSession s) =
        (localStorage s)(SESSION_ID \<mapsto> entropy s (drawn s)) \<and>
      session (initializeSession s) = session s \<and>
      beacons (initializeSession s) = beacons s) \<and>
   (\<not> faultAt 0 s \<and> \<not> faultAt 1 s \<and> persistedSessionStale s \<and> \<not> faultAt 2 s \<and> \<not> faultAt 3 s \<longrightarrow>
      localStorage (initializeSession s) =
        (localStorage s)(SESSION_ID \<mapsto> entropy s (drawn s),
                         EXPIRATION \<mapsto> numberToString (Date_now s + SESSION_DURATION)) \<and>
      session (initializeSession s) =
        Some \<lparr> sessionId = entropy s (drawn s),
               expirationTime = Num (Date_now s + SESSION_DURATION),
               sessionStartTime = Date_now s \<rparr>)"
proof (intro conjI impI)
  let ?s2 = "s\<lparr>storageFaults := tl (tl (storageFaults s))\<rparr>"
  have f: "faultAt 0 ?s2 = faultAt 2 s" "faultAt 1 ?s2 = faultAt 3 s"
    by (simp_all add: numeral_2_eq_2 numeral_3_eq_3)
  show "localStorage (initializeSession s) = localStorage s"
    if "faultAt 0 s \<or> faultAt 1 s \<or> \<not> persistedSessionStale s"
    using that by (rule initializeSession_store_kept)
  {
    assume a: "\<not> faultAt 0 s \<and> \<not> faultAt 1 s \<and> persistedSessionStale s \<and> faultAt 2 s"
    then have eq: "initializeSession s = startNewSession ?s2"
      by (simp add: initializeSession_stale)
    from a f have w: "faultAt 0 ?s2" by simp
    from startNewSession_unwritten [OF w]
    show "localStorage (initializeSession s) = localStorage s"
      "session (initializeSession s) = session s"
      "beacons (initializeSession s) = beacons s"
      by (simp_all add: eq)
  }
  {
    assume a: "\<not> faultAt 0 s \<and> \<not> faultAt 1 s \<and> persistedSessionStale s \<and> \<not> faultAt 2 s \<and> faultAt 3 s"
    then have eq: "initializeSession s = startNewSession ?s2"
      by (simp add: initializeSession_stale)
    from a f have w: "\<not> faultAt 0 ?s2" "faultAt 1 ?s2" by simp_all
    from startNewSession_half_written [OF w]
    show "localStorage (initializeSession s) =
        (localStorage s)(SESSION_ID \<mapsto> entropy s (drawn s))"
      "session (initializeSession s) = session s"
      "beacons (initializeSession s) = beacons s"
      by (simp_all add: eq)
  }
  {
    assume a: "\<not> faultAt 0 s \<and> \<not> faultAt 1 s \<and> persistedSessionStale s \<and> \<not> faultAt 2 s \<and> \<not> faultAt 3 s"
    then have eq: "initializeSession s = startNewSession ?s2"
      by (simp add: initializeSession_stale)
    from a f have w: "\<not> faultAt 0 ?s2" "\<not> faultAt 1 ?s2" by simp_all
    from startNewSession_written [OF w]
    show "localStorage (initializeSession s) =
        (localStorage s)(SESSION_ID \<mapsto> entropy s (drawn s),
                         EXPIRATION \<mapsto> numberToString (Date_now s + SESSION_DURATION))"
      "session (initializeSession s) =
        Some \<lparr> sessionId = entropy s (drawn s),
               expirationTime = Num (Date_now s + SESSION_DURATION),
               sessionStartTime = Date_now s \<rparr>"
      by (simp_all add: eq)
  }
qed

text \<open>
  With an expired persisted session and the second write failing, the new session id
  stands beside the old expiration 500; with no failure both entries are new; with the
  first write failing, and with a session resumed before its expiration 5000, the store
  is as it was. A persisted expiration of a no-break space and 500 is in the past as
  well, and both entries are new.
\<close>

theorem persisted_pair_witness:
  "localStorage (initializeSession ((returningPage ''500'')\<lparr>storageFaults := [False, False, False, True]\<rparr>))
     = [SESSION_ID \<mapsto> ''token0'', EXPIRATION \<mapsto> ''500'', CLIENT_ID \<mapsto> ''client''] \<and>
   session (initializeSession ((returningPage ''500'')\<lparr>storageFaults := [False, False, False, True]\<rparr>))
     = None \<and>
   localStorage (initializeSession (returningPage ''500''))
     = [SESSION_ID \<mapsto> ''token0'', EXPIRATION \<mapsto> ''601000'', CLIENT_ID \<mapsto> ''client''] \<and>
   localStorage (initializeSession ((returningPage ''500'')\<lparr>storageFaults := [False, False, True]\<rparr>))
     = [SESSION_ID \<mapsto> ''abc'', EXPIRATION \<mapsto> ''500'', CLIENT_ID \<mapsto> ''client''] \<and>
   localStorage (initializeSession (returningPage ''5000''))
     = [SESSION_ID \<mapsto> ''abc'', EXPIRATION \<mapsto> ''5000'', CLIENT_ID \<mapsto> ''client''] \<and>
   localStorage (initializeSession (returningPage [CHR 0xA0, CHR ''5'', CHR ''0'', CHR ''0'']))
     = [SESSION_ID \<mapsto> ''token0'', EXPIRATION \<mapsto> ''601000'', CLIENT_ID \<mapsto> ''client'']"
proof -
  let ?s = "(returningPage ''500'')\<lparr>storageFaults := [False, False, False, True]\<rparr>"
  let ?n = "returningPage [CHR 0xA0, CHR ''5'', CHR ''0'', CHR ''0'']"
  have na: "\<not> faultAt 0 ?n" "\<not> faultAt 1 ?n" "\<not> faultAt 2 ?n" "\<not> faultAt 3 ?n"
    by (simp_all add: faultAt_def returningPage_def examplePage_def)
  have nb: "persistedSessionStale ?n"
    by (simp add: persistedSessionStale_def returningPage_def examplePage_def name_defs parseInt_nbsp)
  have nc: "entropy ?n (drawn ?n) = ''token0''" "Date_now ?n = 1000"
    "localStorage ?n = [SESSION_ID \<mapsto> ''abc'',
       EXPIRATION \<mapsto> [CHR 0xA0, CHR ''5'', CHR ''0'', CHR ''0''], CLIENT_ID \<mapsto> ''client'']"
    by (simp_all add: returningPage_def examplePage_def digitsOf.simps)
  have sa: "\<not> faultAt 0 ?s" "\<not> faultAt 1 ?s" "\<not> faultAt 2 ?s" "faultAt 3 ?s"
    by (simp_all add: faultAt_def)
  have sb: "persistedSessionStale ?s"
    by (simp add: persistedSessionStale_def returningPage_def examplePage_def name_defs parseInt_500)
  have sc: "entropy ?s (drawn ?s) = ''token0''" "session ?s = None"
    "localStorage ?s = [SESSION_ID \<mapsto> ''abc'', EXPIRATION \<mapsto> ''500'', CLIENT_ID \<mapsto> ''client'']"
    by (simp_all add: returningPage_def examplePage_def digitsOf.simps)
  let ?r = "returningPage ''500''"
  have ra: "\<not> faultAt 0 ?r" "\<not> faultAt 1 ?r" "\<not> faultAt 2 ?r" "\<not> faultAt 3 ?r"
    by (simp_all add: faultAt_def returningPage_def examplePage_def)
  have rb: "persistedSessionStale ?r"
    by (simp add: persistedSessionStale_def returningPage_def examplePage_def name_defs parseInt_500)
  have rc: "entropy ?r (drawn ?r) = ''token0''" "Date_now ?r = 1000"
    "localStorage ?r = [SESSION_ID \<mapsto> ''abc'', EXPIRATION \<mapsto> ''500'', CLIENT_ID \<mapsto> ''client'']"
    by (simp_all add: returningPage_def examplePage_def digitsOf.simps)
  let ?q = "(returningPage ''500'')\<lparr>storageFaults := [False, False, True]\<rparr>"
  have qa: "\<not> faultAt 0 ?q" "\<not> faultAt 1 ?q" "faultAt 2 ?q"
    by (simp_all add: faultAt_def)
  have qb: "persistedSessionStale ?q"
    by (simp add: persistedSessionStale_def returningPage_def examplePage_def name_defs parseInt_500)
  have qc: "localStorage ?q = [SESSION_ID \<mapsto> ''abc'', EXPIRATION \<mapsto> ''500'', CLIENT_ID \<mapsto> ''client'']"
    by (simp add: returningPage_def)
  let ?p = "returningPage ''5000''"
  have pb: "\<not> persistedSessionStale ?p"
    by (simp add: persistedSessionStale_def returningPage_def examplePage_def name_defs parseInt_5000)
  have pc: "localStorage ?p = [SESSION_ID \<mapsto> ''abc'', EXPIRATION \<mapsto> ''5000'', CLIENT_ID \<mapsto> ''client'']"
    by (simp add: returningPage_def)
  from persisted_pair_by_write_outcome [of ?s] sa sb
  have "localStorage (initializeSession ?s) = (localStorage ?s)(SESSION_ID \<mapsto> entropy ?s (drawn ?s))
        \<and> session (initializeSession ?s) = session ?s"
    by blast
  then have 1: "localStorage (initializeSession ?s)
     = [SESSION_ID \<mapsto> ''token0'', EXPIRATION \<mapsto> ''500'', CLIENT_ID \<mapsto> ''client''] \<and>
     session (initializeSession ?s) = None"
    by (simp only: sc) (simp add: name_defs fun_upd_twist)
  from persisted_pair_by_write_outcome [of ?r] ra rb
  have "localStorage (initializeSession ?r) =
        (localStorage ?r)(SESSION_ID \<mapsto> entropy ?r (drawn ?r),
                         EXPIRATION \<mapsto> numberToString (Date_now ?r + SESSION_DURATION))"
    by blast
  then have 2: "localStorage (initializeSession ?r)
     = [SESSION_ID \<mapsto> ''token0'', EXPIRATION \<mapsto> ''601000'', CLIENT_ID \<mapsto> ''client'']"
    by (simp only: rc) (simp add: name_defs fun_upd_twist numberToString_def digitsOf.simps)
  from persisted_pair_by_write_outcome [of ?q] qa qb
  have "localStorage (initializeSession ?q) = localStorage ?q" by blast
  then have 3: "localStorage (initializeSession ?q)
     = [SESSION_ID \<mapsto> ''abc'', EXPIRATION \<mapsto> ''500'', CLIENT_ID \<mapsto> ''client'']"
    by (simp only: qc)
  from persisted_pair_by_write_outcome [of ?p] pb
  have "localStorage (initializeSession ?p) = localStorage ?p" by blast
  then have 4: "localStorage (initializeSession ?p)
     = [SESSION_ID \<mapsto> ''abc'', EXPIRATION \<mapsto> ''5000'', CLIENT_ID \<mapsto> ''client'']"
    by (simp only: pc)
  from persisted_pair_by_write_outcome [of ?n] na nb
  have "localStorage (initializeSession ?n) =
        (localStorage ?n)(SESSION_ID \<mapsto> entropy ?n (drawn ?n),
                         EXPIRATION \<mapsto> numberToString (Date_now ?n + SESSION_DURATION))"
    by blast
  then have 5: "localStorage (initializeSession ?n)
     = [SESSION_ID \<mapsto> ''token0'', EXPIRATION \<mapsto> ''601000'', CLIENT_ID \<mapsto> ''client'']"
    by (simp only: nc) (simp add: name_defs fun_upd_twist numberToString_def digitsOf.simps)
  from 1 2 3 4 5 show ?thesis by (simp only: simp_thms)
qed

text \<open>
  Claim C9 as stated fails when the second write throws while the page loads: the store
  then pairs the new session id \<^verbatim>\<open>token0\<close> with the expiration 500 of the earlier session
  \<^verbatim>\<open>abc\<close>.
\<close>

theorem persisted_pair_counterexample:
  "localStorage (construct ((returningPage ''500'')\<lparr>storageFaults := [False, False, False, False, True]\<rparr>))
     SESSION_ID = Some ''token0'' \<and>
   localStorage (construct ((returningPage ''500'')\<lparr>storageFaults := [False, False, False, False, True]\<rparr>))
     EXPIRATION = Some ''500'' \<and>
   localStorage ((returningPage ''500'')\<lparr>storageFaults := [False, False, False, False, True]\<rparr>)
     SESSION_ID = Some ''abc'' \<and>
   localStorage ((returningPage ''500'')\<lparr>storageFaults := [False, False, False, False, True]\<rparr>)
     EXPIRATION = Some ''500''"
  by (simp add: model_defs name_defs returningPage_def examplePage_def Let_def parseInt_500 [unfolded name_defs])

subsection \<open>An expiration that is not a number\<close>

text \<open>
  Claim C10, as amended. When both reads succeed and a non-empty session id is persisted,
  every non-empty persisted expiration that \<^verbatim>\<open>parseInt\<close> turns into \<^verbatim>\<open>NaN\<close> counts as not
  expired: the persisted session id is resumed with the in-memory expiration \<^verbatim>\<open>NaN\<close>, and
  the store is left as it was.
\<close>

theorem unparseable_expiration_resumes:
  assumes "\<not> faultAt 0 s" and "\<not> faultAt 1 s"
    and "localStorage s SESSION_ID = Some sid" and "sid \<noteq> []"
    and "localStorage s EXPIRATION = Some e" and "e \<noteq> []"
    and "parseInt e = NaN"
  shows "\<not> isSessionExpired e s \<and>
         session (initializeSession s) =
           Some \<lparr> sessionId = sid, expirationTime = NaN, sessionStartTime = Date_now s \<rparr> \<and>
         localStorage (initializeSession s) = localStorage s"
proof -
  from assms have fresh: "\<not> persistedSessionStale s"
    by (simp add: persistedSessionStale_def)
  from initializeSession_fresh [OF assms(1,2) fresh assms(3,5)] assms(7)
  show ?thesis by (simp add: resumeSession_session isSessionExpired_def)
qed

text \<open>
  The persisted expiration \<^verbatim>\<open>abc\<close> resumes the session \<^verbatim>\<open>abc\<close>, and so does an expiration
  that is a single no-break space: white space alone is no number.
\<close>

theorem unparseable_expiration_witness:
  "session (initializeSession (returningPage ''abc'')) =
     Some \<lparr> sessionId = ''abc'', expirationTime = NaN, sessionStartTime = 1000 \<rparr> \<and>
   localStorage (initializeSession (returningPage ''abc'')) = localStorage (returningPage ''abc'') \<and>
   session (initializeSession (returningPage [CHR 0xA0])) =
     Some \<lparr> sessionId = ''abc'', expirationTime = NaN, sessionStartTime = 1000 \<rparr>"
proof -
  have a: "\<not> faultAt 0 (returningPage ''abc'')" "\<not> faultAt 1 (returningPage ''abc'')"
    "localStorage (returningPage ''abc'') SESSION_ID = Some ''abc''"
    "localStorage (returningPage ''abc'') EXPIRATION = Some ''abc''"
    "Date_now (returningPage ''abc'') = 1000"
    by (simp_all add: faultAt_def returningPage_def examplePage_def name_defs)
  have b: "\<not> faultAt 0 (returningPage [CHR 0xA0])" "\<not> faultAt 1 (returningPage [CHR 0xA0])"
    "localStorage (returningPage [CHR 0xA0]) SESSION_ID = Some ''abc''"
    "localStorage (returningPage [CHR 0xA0]) EXPIRATION = Some [CHR 0xA0]"
    "Date_now (returningPage [CHR 0xA0]) = 1000"
    by (simp_all add: faultAt_def returningPage_def examplePage_def name_defs)
  from unparseable_expiration_resumes [OF a(1,2,3) _ a(4) _ parseInt_abc] a(5)
  have "session (initializeSession (returningPage ''abc'')) =
     Some \<lparr> sessionId = ''abc'', expirationTime = NaN, sessionStartTime = 1000 \<rparr> \<and>
   localStorage (initializeSession (returningPage ''abc'')) = localStorage (returningPage ''abc'')"
    by simp
  moreover
  from unparseable_expiration_resumes [OF b(1,2,3) _ b(4) _ parseInt_space] b(5)
  have "session (initializeSession (returningPage [CHR 0xA0])) =
     Some \<lparr> sessionId = ''abc'', expirationTime = NaN, sessionStartTime = 1000 \<rparr>"
    by simp
  ultimately show ?thesis by simp
qed

text \<open>
  Claim C10 as stated fails for the empty string: \<^verbatim>\<open>parseInt\<close> turns it into \<^verbatim>\<open>NaN\<close>, and
  initialization starts a new session, since the empty string is falsy.
\<close>

theorem empty_expiration_counterexample:
  "parseInt [] = NaN \<and>
   localStorage (returningPage []) EXPIRATION = Some [] \<and>
   localStorage (returningPage []) SESSION_ID = Some ''abc'' \<and>
   session (initializeSession (returningPage [])) =
     Some \<lparr> sessionId = ''token0'', expirationTime = Num 601000, sessionStartTime = 1000 \<rparr> \<and>
   localStorage (initializeSession (returningPage [])) SESSION_ID = Some ''token0''"
  by (simp add: model_defs name_defs returningPage_def examplePage_def Let_def parseInt_Nil)

section \<open>Session refresh\<close>

text \<open>
  Claim C4. \<^verbatim>\<open>refreshSession\<close> changes nothing when the page is not visible or the
  tracker is destroyed. Otherwise, when the storage write throws, the persisted entries
  and the in-memory session stay as they were; when it succeeds, the persisted
  expiration and the in-memory expiration both become now plus the session duration.
  In every case nothing is sent and no call is left waiting.
\<close>

theorem refresh_all_or_nothing:
  "(visibilityState s \<noteq> Visible \<or> isDestroyed s \<longrightarrow> refreshSession s = s) \<and>
   (visibilityState s = Visible \<and> \<not> isDestroyed s \<and> faultAt 0 s \<longrightarrow>
      localStorage (refreshSession s) = localStorage s \<and>
      session (refreshSession s) = session s) \<and>
   (visibilityState s = Visible \<and> \<not> isDestroyed s \<and> \<not> faultAt 0 s \<longrightarrow>
      localStorage (refreshSession s) =
        (localStorage s)(EXPIRATION \<mapsto> numberToString (Date_now s + SESSION_DURATION)) \<and>
      session (refreshSession s) =
        map_option (\<lambda>sess. sess\<lparr>expirationTime := Num (Date_now s + SESSION_DURATION)\<rparr>)
          (session s)) \<and>
   beacons (refreshSession s) = beacons s \<and>
   suspended (refreshSession s) = suspended s"
  by (simp add: refreshSession_def setItem_def nextFault_faultAt Let_def split: option.splits)

text \<open>
  On the loaded example page: a hidden page is left alone; at time 5000 a failing write
  keeps the expiration 601000 in the store and in memory; a successful write moves both
  to 605000.
\<close>

theorem refresh_witness:
  "refreshSession ((construct examplePage)\<lparr>visibilityState := Hidden\<rparr>) =
     (construct examplePage)\<lparr>visibilityState := Hidden\<rparr> \<and>
   localStorage (refreshSession ((construct examplePage)\<lparr>Date_now := 5000, storageFaults := [True]\<rparr>))
     EXPIRATION = Some ''601000'' \<and>
   session (refreshSession ((construct examplePage)\<lparr>Date_now := 5000, storageFaults := [True]\<rparr>)) =
     Some \<lparr> sessionId = ''token1'', expirationTime = Num 601000, sessionStartTime = 1000 \<rparr> \<and>
   localStorage (refreshSession ((construct examplePage)\<lparr>Date_now := 5000\<rparr>))
     EXPIRATION = Some ''605000'' \<and>
   session (refreshSession ((construct examplePage)\<lparr>Date_now := 5000\<rparr>)) =
     Some \<lparr> sessionId = ''token1'', expirationTime = Num 605000, sessionStartTime = 1000 \<rparr>"
proof -
  let ?h = "(construct examplePage)\<lparr>visibilityState := Hidden\<rparr>"
  let ?f = "(construct examplePage)\<lparr>Date_now := 5000, storageFaults := [True]\<rparr>"
  let ?g = "(construct examplePage)\<lparr>Date_now := 5000\<rparr>"
  have 1: "refreshSession ?h = ?h"
    using refresh_all_or_nothing [of ?h] by simp
  have 2: "localStorage (refreshSession ?f) EXPIRATION = Some ''601000'' \<and>
           session (refreshSession ?f) =
             Some \<lparr> sessionId = ''token1'', expirationTime = Num 601000, sessionStartTime = 1000 \<rparr>"
    using refresh_all_or_nothing [of ?f] construct_examplePage by (simp add: faultAt_def)
  have 3: "localStorage (refreshSession ?g) EXPIRATION = Some ''605000'' \<and>
           session (refreshSession ?g) =
             Some \<lparr> sessionId = ''token1'', expirationTime = Num 605000, sessionStartTime = 1000 \<rparr>"
    using refresh_all_or_nothing [of ?g] construct_examplePage
    by (simp add: faultAt_def name_defs numberToString_def digitsOf.simps)
  from 1 2 3 show ?thesis by simp
qed

section \<open>The referrer of an event\<close>

lemma classifyReferrer_eq:
  "classifyReferrer s =
     (if document_referrer s = [] \<or> prefix (location_origin s) (document_referrer s)
      then ''Direct'' else document_referrer s)"
  by (simp add: classifyReferrer_def startsWith_def Let_def)

lemma originOf_prefix: "originOf u \<noteq> ''null'' \<Longrightarrow> prefix (originOf u) u"
proof -
  assume a: "originOf u \<noteq> ''null''"
  define scheme where "scheme = takeWhile (\<lambda>c. c \<noteq> CHR '':'') u"
  define rest where "rest = drop (length scheme) u"
  define host where
    "host = takeWhile (\<lambda>c. c \<noteq> CHR ''/'' \<and> c \<noteq> CHR ''?'' \<and> c \<noteq> CHR ''#'') (drop 3 rest)"
  from a have p: "prefix ''://'' rest"
    unfolding originOf_def Let_def rest_def scheme_def by (simp split: if_splits)
  then obtain zs where zs: "rest = ''://'' @ zs" by (auto elim: prefixE)
  then have d: "drop 3 rest = zs" by simp
  from p have o: "originOf u = scheme @ ''://'' @ host"
    unfolding originOf_def Let_def rest_def scheme_def host_def by simp
  have "takeWhile (\<lambda>c. c \<noteq> CHR '':'') u @ dropWhile (\<lambda>c. c \<noteq> CHR '':'') u = u"
    by (rule takeWhile_dropWhile_id)
  moreover have "dropWhile (\<lambda>c. c \<noteq> CHR '':'') u = rest"
    unfolding rest_def scheme_def by (simp only: dropWhile_eq_drop)
  ultimately have u: "u = scheme @ rest" unfolding scheme_def by (simp only:)
  have h: "zs = host @ dropWhile (\<lambda>c. c \<noteq> CHR ''/'' \<and> c \<noteq> CHR ''?'' \<and> c \<noteq> CHR ''#'') zs"
    unfolding host_def d by simp
  define tail where
    "tail = dropWhile (\<lambda>c. c \<noteq> CHR ''/'' \<and> c \<noteq> CHR ''?'' \<and> c \<noteq> CHR ''#'') zs"
  from h have h': "zs = host @ tail" unfolding tail_def .
  have "u = scheme @ (''://'' @ zs)" using u zs by (simp only:)
  also have "\<dots> = scheme @ (''://'' @ (host @ tail))" using h' by (simp only:)
  also have "\<dots> = (scheme @ ''://'' @ host) @ tail" by (simp only: append_assoc)
  finally have "prefix (scheme @ ''://'' @ host) u" by (rule prefixI)
  with o show ?thesis by (simp only:)
qed

lemma same_origin_is_direct:
  "sameOrigin (document_referrer s) (location_origin s) \<Longrightarrow> location_origin s \<noteq> ''null'' \<Longrightarrow>
   classifyReferrer s = ''Direct''"
  using originOf_prefix [of "document_referrer s"]
  by (simp add: classifyReferrer_eq sameOrigin_def)

text \<open>
  Claim C8 fails on the code. A referrer of another origin whose text begins with the
  origin of the page is sent as \<^verbatim>\<open>Direct\<close>: on the page \<^verbatim>\<open>https://example.com\<close>, reached
  from \<^verbatim>\<open>https://example.com.evil.org/\<close>, the \<^verbatim>\<open>session-start\<close> event carries the
  referrer \<^verbatim>\<open>Direct\<close>.
\<close>

theorem referrer_prefix_collision:
  "\<not> sameOrigin ''https://example.com.evil.org/'' ''https://example.com'' \<and>
   location_origin examplePage = ''https://example.com'' \<and>
   map p_referrer
     (beacons (construct (examplePage\<lparr>document_referrer := ''https://example.com.evil.org/''\<rparr>)))
     = [''Direct'']"
  by (simp add: sameOrigin_def originOf_def model_defs name_defs examplePage_def Let_def)

section \<open>Destruction and the final metrics\<close>

text \<open>
  Claim C6 fails on the code. \<^verbatim>\<open>destroy\<close> sets the destroyed flag before it reaches
  \<^verbatim>\<open>sendFinalMetrics\<close>, so \<^verbatim>\<open>trackEvent\<close> returns at once: on the loaded example page,
  whose session is ready and whose final metrics were not sent, \<^verbatim>\<open>destroy\<close> sets the
  one-shot flag and sends nothing; the only event sent stays \<^verbatim>\<open>session-start\<close>.
\<close>

theorem destroy_sends_no_final_metrics:
  "\<not> finalMetricsSent (construct examplePage) \<and>
   sessionReady (construct examplePage) \<and>
   finalMetricsSent (destroy (construct examplePage)) \<and>
   map p_event (beacons (destroy (construct examplePage))) = [''session-start'']"
  using construct_examplePage by (simp add: sessionReady_def)

text \<open>
  Claim C5. After \<^verbatim>\<open>destroy\<close> on a page reached from the load of the script, no
  sequence of performance entries, document and window events, timers, navigation
  changes and calls of the host page sends anything.
\<close>

theorem no_dispatch_after_destroy:
  "reachable s \<Longrightarrow> beacons (run sigs (destroy s)) = beacons s"
proof -
  assume "reachable s"
  then have "waitingWithoutSession (destroy s)" by (simp add: reachable_waiting)
  then have "beacons (run sigs (destroy s)) = beacons (destroy s)"
    by (intro run_destroyed) simp_all
  then show ?thesis by simp
qed

text \<open>
  On the destroyed example page, calls of the host page, a hidden page, an unload and
  the timers leave \<^verbatim>\<open>session-start\<close> the only event sent.
\<close>

theorem no_dispatch_after_destroy_witness:
  "map p_event
     (beacons (run [YourTracking ''signup'' NoData, LynqTrack ''click'' ''{}'',
                    VisibilityChange Hidden, BeforeUnload, GraceTimer, RefreshTimer, DomMutation]
                 (destroy (construct examplePage))))
     = [''session-start'']"
  using no_dispatch_after_destroy [OF reachable.loaded, of _ examplePage] construct_examplePage
  by simp

text \<open>
  Claim C3. Once the one-shot flag is set, \<^verbatim>\<open>sendFinalMetrics\<close> changes nothing, and
  every call of it leaves the flag set. So along every run of a page on which the host
  page itself sends no event named \<^verbatim>\<open>web-vitals\<close>, at most one \<^verbatim>\<open>web-vitals\<close> event is
  sent.
\<close>

theorem final_metrics_at_most_once:
  "(finalMetricsSent s \<longrightarrow> sendFinalMetrics s = s) \<and>
   finalMetricsSent (sendFinalMetrics s) \<and>
   ((\<forall>sig\<in>set sigs. \<not> hostUses WEB_VITALS sig) \<longrightarrow>
      countEvent WEB_VITALS (beacons (run sigs (construct env)))
        \<le> countEvent WEB_VITALS (beacons env) + 1)"
proof (intro conjI impI)
  show "sendFinalMetrics s = s" if "finalMetricsSent s"
    using that by (rule sendFinalMetrics_sent)
  show "finalMetricsSent (sendFinalMetrics s)" by simp
  assume "\<forall>sig\<in>set sigs. \<not> hostUses WEB_VITALS sig"
  then have "vitalsBudget (run sigs (construct env)) \<le> vitalsBudget (construct env)"
    by (rule run_budget)
  moreover have "countEvent WEB_VITALS (beacons (run sigs (construct env)))
                   \<le> vitalsBudget (run sigs (construct env))"
    by (simp add: vitalsBudget_def eventLoad_def)
  ultimately show "countEvent WEB_VITALS (beacons (run sigs (construct env)))
                     \<le> countEvent WEB_VITALS (beacons env) + 1"
    by (simp add: budget_construct)
qed

text \<open>
  On the example page, when the page is hidden and then unloaded, \<^verbatim>\<open>web-vitals\<close> is sent
  once, between \<^verbatim>\<open>session-start\<close> and \<^verbatim>\<open>session-end\<close>; once \<^verbatim>\<open>destroy\<close> has set the
  flag, \<^verbatim>\<open>sendFinalMetrics\<close> changes nothing.
\<close>

theorem final_metrics_at_most_once_witness:
  "sendFinalMetrics (destroy (construct examplePage)) = destroy (construct examplePage) \<and>
   countEvent WEB_VITALS
     (beacons (run [VisibilityChange Hidden, BeforeUnload] (construct examplePage))) \<le> 1 \<and>
   map p_event (beacons (run [VisibilityChange Hidden, BeforeUnload] (construct examplePage)))
     = [''session-start'', ''web-vitals'', ''session-end'']"
proof -
  have "sendFinalMetrics (destroy (construct examplePage)) = destroy (construct examplePage)"
    using final_metrics_at_most_once [of "destroy (construct examplePage)" "[]" examplePage]
    by simp
  moreover
  have "countEvent WEB_VITALS
          (beacons (run [VisibilityChange Hidden, BeforeUnload] (construct examplePage))) \<le> 1"
    using final_metrics_at_most_once [of _ "[VisibilityChange Hidden, BeforeUnload]" examplePage]
    by (simp add: examplePage_def countEvent_def)
  moreover
  have "map p_event (beacons (run [VisibilityChange Hidden, BeforeUnload] (construct examplePage)))
          = [''session-start'', ''web-vitals'', ''session-end'']"
    by (simp add: run_def model_defs name_defs examplePage_def Let_def sendFinalMetrics_def
        collectPerformanceMetrics_def sessionEndHandler_def)
  ultimately show ?thesis by simp
qed

end
